theory Spec2Isabelle
  imports Complex_Main "HOL-Library.Word"
begin

section \<open>JavaScript values\<close>

text \<open>
  The gateway is written in JavaScript. A JavaScript string is a sequence of UTF-16
  code units and \<open>length\<close> counts code units, so a string is a list of 16-bit words.
  Provider names are plain identifiers and are kept as HOL strings.
\<close>

subsection \<open>Numbers\<close>

text \<open>
  A JavaScript number is an IEEE 754 double. A finite double is a real number, and every
  arithmetic operation returns the double nearest to the exact result, ties going to
  the even significand. \<open>expo x\<close> is the binary exponent of a positive \<open>x\<close>
  (\<open>2 ^ expo x \<le> x < 2 ^ (expo x + 1)\<close>); a double has 53 significant bits, and below
  \<open>2 ^ (- 1022)\<close> the spacing stays that of the smallest normal numbers. Overflow is
  not modelled: the operations are those of the language for results below
  \<open>2 ^ 1024\<close> in magnitude. A decimal literal \<open>c\<close> of the source denotes \<open>dbl c\<close>.
  \<open>NaN\<close> and the infinities appear only where the source can produce them from a
  string (\<open>parseFloat\<close>, see \<open>jsnum\<close>) or from a missing operand.
\<close>

function expo :: "real \<Rightarrow> int" where
  "expo x = (if 2 \<le> x then expo (x / 2) + 1
             else if 0 < x \<and> x < 1 then expo (2 * x) - 1
             else 0)"
  by pat_completeness auto
termination
proof (relation "measure (\<lambda>x. if 1 \<le> x then nat \<lceil>x\<rceil> else 2 + nat \<lceil>1 / x\<rceil>)")
  show "wf (measure (\<lambda>x::real. if 1 \<le> x then nat \<lceil>x\<rceil> else 2 + nat \<lceil>1 / x\<rceil>))"
    by simp
next
  fix x :: real
  assume a: "2 \<le> x"
  have "\<lceil>x / 2\<rceil> < \<lceil>x\<rceil>"
  proof -
    have "of_int \<lceil>x / 2\<rceil> < x / 2 + 1" by linarith
    also have "\<dots> \<le> x" using a by simp
    also have "\<dots> \<le> of_int \<lceil>x\<rceil>" by linarith
    finally show ?thesis by linarith
  qed
  then have "nat \<lceil>x / 2\<rceil> < nat \<lceil>x\<rceil>" using a by linarith
  then show "(x / 2, x) \<in> measure (\<lambda>x. if 1 \<le> x then nat \<lceil>x\<rceil> else 2 + nat \<lceil>1 / x\<rceil>)"
    using a by simp
next
  fix x :: real
  assume a: "\<not> 2 \<le> x" and b: "0 < x \<and> x < 1"
  have inv: "1 < 1 / x" using b by simp
  show "(2 * x, x) \<in> measure (\<lambda>x. if 1 \<le> x then nat \<lceil>x\<rceil> else 2 + nat \<lceil>1 / x\<rceil>)"
  proof (cases "1 \<le> 2 * x")
    case True
    have "nat \<lceil>2 * x\<rceil> \<le> 2" using b by linarith
    then have "nat \<lceil>2 * x\<rceil> < 2 + nat \<lceil>1 / x\<rceil>" using inv by linarith
    then show ?thesis using True b by simp
  next
    case False
    define y where "y = 1 / x"
    have two: "2 \<le> y" using False b by (simp add: y_def field_simps)
    have half: "1 / (2 * x) = y / 2" by (simp add: y_def)
    have "\<lceil>y / 2\<rceil> < \<lceil>y\<rceil>"
    proof -
      have "of_int \<lceil>y / 2\<rceil> < y / 2 + 1" by linarith
      also have "\<dots> \<le> y" using two by linarith
      also have "\<dots> \<le> of_int \<lceil>y\<rceil>" by linarith
      finally show ?thesis by linarith
    qed
    then have "\<lceil>1 / (2 * x)\<rceil> < \<lceil>1 / x\<rceil>" unfolding half by (simp add: y_def)
    then have "nat \<lceil>1 / (2 * x)\<rceil> < nat \<lceil>1 / x\<rceil>" using inv by linarith
    then show ?thesis using False b by simp
  qed
qed

declare expo.simps [simp del]

text \<open>The nearest integer, a tie going to the even one.\<close>

definition roundEven :: "real \<Rightarrow> int" where
  "roundEven r =
     (let f = \<lfloor>r\<rfloor>; d = r - of_int f
      in if d < 1 / 2 then f else if 1 / 2 < d then f + 1
         else if even f then f else f + 1)"

text \<open>The exponent of the spacing of the doubles around a positive \<open>x\<close>.\<close>

definition ulpExp :: "real \<Rightarrow> int" where
  "ulpExp x = max (expo x) (- 1022) - 52"

definition rnd :: "real \<Rightarrow> real" where
  "rnd x = of_int (roundEven (x / 2 powi ulpExp x)) * 2 powi ulpExp x"

text \<open>The double nearest to a real number.\<close>

definition dbl :: "real \<Rightarrow> real" where
  "dbl x = (if x = 0 then 0 else if 0 < x then rnd x else - rnd (- x))"

text \<open>The operators \<open>+\<close>, \<open>-\<close>, \<open>*\<close> and \<open>/\<close> of the language on finite doubles (the
  divisor is not zero wherever the model divides).\<close>

definition fadd :: "real \<Rightarrow> real \<Rightarrow> real" where
  "fadd a b = dbl (a + b)"

definition fsub :: "real \<Rightarrow> real \<Rightarrow> real" where
  "fsub a b = dbl (a - b)"

definition fmul :: "real \<Rightarrow> real \<Rightarrow> real" where
  "fmul a b = dbl (a * b)"

definition fdiv :: "real \<Rightarrow> real \<Rightarrow> real" where
  "fdiv a b = dbl (a / b)"

subsection \<open>Strings\<close>

type_synonym jschar = "16 word"
type_synonym jsstring = "jschar list"

text \<open>The character class \<open>\s\<close> of a JavaScript regular expression; \<open>trim\<close> strips
  the same set (white space and line terminators).\<close>

definition isWhiteSpace :: "jschar \<Rightarrow> bool" where
  "isWhiteSpace c =
     (c = 0x09 \<or> c = 0x0A \<or> c = 0x0B \<or> c = 0x0C \<or> c = 0x0D \<or> c = 0x20 \<or>
      c = 0xA0 \<or> c = 0x1680 \<or> (0x2000 \<le> c \<and> c \<le> 0x200A) \<or>
      c = 0x2028 \<or> c = 0x2029 \<or> c = 0x202F \<or> c = 0x205F \<or> c = 0x3000 \<or>
      c = 0xFEFF)"

text \<open>The character class \<open>[.!?]\<close>.\<close>

definition isSentenceEnd :: "jschar \<Rightarrow> bool" where
  "isSentenceEnd c = (c = 0x2E \<or> c = 0x21 \<or> c = 0x3F)"

text \<open>
  \<open>s.split(/[class]+/)\<close>: the pieces of \<open>s\<close> between the maximal runs of separator
  characters. A run at the start or at the end of the string leaves an empty piece
  there, and the empty string splits into one empty piece. \<open>cur\<close> is the piece being
  read (reversed) and \<open>inRun\<close> says that the previous character was a separator.
\<close>

fun splitRuns :: "(jschar \<Rightarrow> bool) \<Rightarrow> bool \<Rightarrow> jsstring \<Rightarrow> jsstring \<Rightarrow> jsstring list" where
  "splitRuns sep inRun cur [] = [rev cur]"
| "splitRuns sep inRun cur (c # cs) =
     (if sep c
      then (if inRun then splitRuns sep True [] cs
            else rev cur # splitRuns sep True [] cs)
      else splitRuns sep False (c # cur) cs)"

definition jsSplit :: "(jschar \<Rightarrow> bool) \<Rightarrow> jsstring \<Rightarrow> jsstring list" where
  "jsSplit sep s = splitRuns sep False [] s"

definition jsTrim :: "jsstring \<Rightarrow> jsstring" where
  "jsTrim s = rev (dropWhile isWhiteSpace (rev (dropWhile isWhiteSpace s)))"

text \<open>\<open>v || d\<close> on a number that may be missing: the default replaces \<open>undefined\<close>
  and \<open>0\<close>.\<close>

definition orDefault :: "'a::zero option \<Rightarrow> 'a \<Rightarrow> 'a" where
  "orDefault v d = (case v of None \<Rightarrow> d | Some x \<Rightarrow> if x = 0 then d else x)"

text \<open>What \<open>parseFloat\<close> can return. The parser is a builtin of the language; its
  result on the budget string is an input of the model.\<close>

datatype jsnum = NaN | NegInfinity | Finite real | Infinity

fun numGt :: "real \<Rightarrow> jsnum \<Rightarrow> bool" where
  "numGt x NaN = False"
| "numGt x NegInfinity = True"
| "numGt x (Finite b) = (x > b)"
| "numGt x Infinity = False"

fun numLe :: "real \<Rightarrow> jsnum \<Rightarrow> bool" where
  "numLe x NaN = False"
| "numLe x NegInfinity = False"
| "numLe x (Finite b) = (x \<le> b)"
| "numLe x Infinity = True"

section \<open>Complexity evaluator (modelGatewayService.evaluateQueryComplexity)\<close>

text \<open>Each definition is one local constant of the function body (lines 25 to 37),
  with the operations on doubles in the order of the source. The monitoring call and
  the rethrowing handler around the body do not change the value returned.\<close>

definition words :: "jsstring \<Rightarrow> jsstring list" where
  "words query = jsSplit isWhiteSpace query"

definition wordCount :: "jsstring \<Rightarrow> nat" where
  "wordCount query = length (words query)"

definition avgWordLength :: "jsstring \<Rightarrow> real" where
  "avgWordLength query =
     fdiv (real (foldl (\<lambda>sum word. sum + length word) 0 (words query)))
          (real (wordCount query))"

definition vocabularyComplexity :: "jsstring \<Rightarrow> real" where
  "vocabularyComplexity query =
     fadd (fmul (min (fdiv (real (wordCount query)) 100) 1) 0.5)
          (fmul (min (fdiv (avgWordLength query) 10) 1) 0.5)"

definition sentences :: "jsstring \<Rightarrow> jsstring list" where
  "sentences query = filter (\<lambda>s. length (jsTrim s) > 0) (jsSplit isSentenceEnd query)"

definition sentenceCount :: "jsstring \<Rightarrow> nat" where
  "sentenceCount query = max (length (sentences query)) 1"

definition avgSentenceLength :: "jsstring \<Rightarrow> real" where
  "avgSentenceLength query = fdiv (real (wordCount query)) (real (sentenceCount query))"

definition grammarComplexity :: "jsstring \<Rightarrow> real" where
  "grammarComplexity query = min (fdiv (avgSentenceLength query) 20) 1"

text \<open>The three factor strings pushed by the source, as code units.\<close>

definition factorVocabulary :: jsstring where
  "factorVocabulary = [0x9AD8, 0x8BCD, 0x6C47, 0x590D, 0x6742, 0x5EA6]"

definition factorGrammar :: jsstring where
  "factorGrammar = [0x590D, 0x6742, 0x8BED, 0x6CD5, 0x7ED3, 0x6784]"

definition factorLength :: jsstring where
  "factorLength = [0x67E5, 0x8BE2, 0x957F, 0x5EA6, 0x8F83, 0x957F]"

record complexityResult =
  complexityScore :: real
  complexityFactors :: "jsstring list"

definition evaluateQueryComplexity :: "jsstring \<Rightarrow> complexityResult" where
  "evaluateQueryComplexity query =
     \<lparr> complexityScore = fadd (fmul (vocabularyComplexity query) (dbl 0.6))
                               (fmul (grammarComplexity query) (dbl 0.4)),
       complexityFactors =
         (if vocabularyComplexity query > dbl 0.6 then [factorVocabulary] else []) @
         (if grammarComplexity query > dbl 0.6 then [factorGrammar] else []) @
         (if wordCount query > 100 then [factorLength] else []) \<rparr>"

section \<open>Router (modelRouterService)\<close>

datatype modelType = Local | Hybrid | Remote

datatype providerStatus = Online | Degraded | Offline

text \<open>A provider's configuration entry. A field the configuration may omit is an
  option.\<close>

record providerConfig =
  status :: providerStatus
  supportedModelTypes :: "modelType list option"
  maxConcurrentQueries :: "nat option"
  baseCostPerQuery :: "real option"
  maxCostPerQuery :: "real option"
  costEfficiency :: "real option"

record strategy =
  lowComplexityThreshold :: real
  highComplexityThreshold :: real

record modelStatsEntry =
  avgResponseTime :: real
  successRate :: real
  statsCostEfficiency :: real
  totalCalls :: nat

text \<open>The request metadata the router reads: \<open>queryLength\<close> is set by the request
  preprocessor on every request; \<open>budget\<close> is \<open>None\<close> when the key is absent or
  holds the empty string and otherwise what \<open>parseFloat\<close> makes of the string.\<close>

record metadata =
  queryLength :: nat
  budget :: "jsnum option"

text \<open>The service object: the configuration in the order of \<open>Object.entries\<close>, and
  the two maps the constructor creates empty.\<close>

record routerService =
  routingStrategy :: strategy
  modelProviders :: "(string \<times> providerConfig) list"
  activeConnections :: "string \<rightharpoonup> nat"
  modelStats :: "string \<rightharpoonup> modelStatsEntry"

text \<open>Errors thrown in the gateway. The constructors of \<open>gatewayError\<close> are the
  kinds built by \<open>Errors.*\<close> (their messages are left out); \<open>TypeError\<close> is the
  language's own; \<open>AdapterFailure\<close> is whatever an adapter call throws.\<close>

datatype gatewayError =
  INVALID_REQUEST | MODEL_UNAVAILABLE | COMPLEXITY_EVALUATION_FAILED | COST_LIMIT_EXCEEDED

datatype thrown = GatewayError gatewayError | TypeError | AdapterFailure

text \<open>A routing decision. The source builds it with different sets of properties:
  \<open>estimatedCost\<close> is missing from a backup decision (\<open>None\<close>), and a flag that is
  not set is \<open>False\<close>.\<close>

record modelInfo =
  provider :: string
  modelType :: modelType
  modelConfig :: providerConfig
  estimatedCost :: "real option"
  costControlled :: bool
  isBackup :: bool

definition getAvailableProviders ::
  "routerService \<Rightarrow> modelType \<Rightarrow> metadata \<Rightarrow> (string \<times> providerConfig) list" where
  "getAvailableProviders svc mt md =
     filter (\<lambda>(name, config).
       let supportsModelType =
             (case supportedModelTypes config of Some ts \<Rightarrow> mt \<in> set ts | None \<Rightarrow> True);
           isOnline = (status config \<noteq> Offline);
           currentConnections = orDefault (activeConnections svc name) 0;
           withinConnectionLimit =
             (currentConnections < orDefault (maxConcurrentQueries config) 10)
       in supportsModelType \<and> isOnline \<and> withinConnectionLimit)
     (modelProviders svc)"

text \<open>The score computed for one provider inside \<open>selectBestProvider\<close>. The
  divisors are positive: the load limit by its default, the response time because
  recorded times are not negative.\<close>

definition providerScore :: "routerService \<Rightarrow> string \<times> providerConfig \<Rightarrow> real" where
  "providerScore svc p =
     (let stats = (case modelStats svc (fst p) of
                     Some st \<Rightarrow> st
                   | None \<Rightarrow> \<lparr> avgResponseTime = 500, successRate = dbl 0.95,
                               statsCostEfficiency = dbl 0.8, totalCalls = 0 \<rparr>);
          currentLoad = orDefault (activeConnections svc (fst p)) 0;
          maxLoad = orDefault (maxConcurrentQueries (snd p)) 10;
          loadFactor = fsub 1 (fdiv (real currentLoad) (real maxLoad));
          costFactor = orDefault (costEfficiency (snd p)) 0.5;
          performanceFactor =
            fmul (successRate stats) (fdiv 1000 (fadd (avgResponseTime stats) 100))
      in fadd (fadd (fmul loadFactor (dbl 0.4)) (fmul costFactor (dbl 0.3)))
              (fmul performanceFactor (dbl 0.3)))"

text \<open>The sort is stable and descending in the score (the comparator is the sign of
  the difference of two scores, which rounding does not change); of an empty list the
  source returns \<open>undefined\<close>, here \<open>None\<close>.\<close>

definition selectBestProvider ::
  "routerService \<Rightarrow> (string \<times> providerConfig) list \<Rightarrow> real \<Rightarrow> metadata
     \<Rightarrow> (string \<times> providerConfig) option" where
  "selectBestProvider svc providers score md =
     (if length providers = 1 then Some (hd providers)
      else (case sort_key (\<lambda>p. - providerScore svc p) providers of
              [] \<Rightarrow> None
            | best # _ \<Rightarrow> Some best))"

definition estimateCost :: "providerConfig \<Rightarrow> real \<Rightarrow> metadata \<Rightarrow> real" where
  "estimateCost config score md =
     (let baseCost = orDefault (baseCostPerQuery config) (dbl 0.001);
          complexityFactor = fadd 1 score;
          lengthFactor = fadd 1 (fdiv (real (queryLength md)) 1000);
          estimated = fmul (fmul baseCost complexityFactor) lengthFactor;
          maxCost = orDefault (maxCostPerQuery config) (dbl 0.1)
      in min estimated maxCost)"

text \<open>The value of the local variable \<open>modelType\<close> of \<open>selectModelByComplexity\<close>
  (lines 34 to 41).\<close>

definition chosenModelType :: "strategy \<Rightarrow> real \<Rightarrow> modelType" where
  "chosenModelType rs score =
     (if score < lowComplexityThreshold rs then Local
      else if score < highComplexityThreshold rs then Hybrid
      else Remote)"

definition selectModelByComplexity ::
  "routerService \<Rightarrow> real \<Rightarrow> jsstring list \<Rightarrow> metadata \<Rightarrow> thrown + modelInfo" where
  "selectModelByComplexity svc score factors md =
     (let mt = chosenModelType (routingStrategy svc) score;
          availableProviders = getAvailableProviders svc mt md
      in if length availableProviders = 0 then Inl (GatewayError MODEL_UNAVAILABLE)
         else (case selectBestProvider svc availableProviders score md of
                 None \<Rightarrow> Inl TypeError
               | Some selected \<Rightarrow>
                   Inr \<lparr> provider = fst selected, modelType = mt,
                         modelConfig = snd selected,
                         estimatedCost = Some (estimateCost (snd selected) score md),
                         costControlled = False, isBackup = False \<rparr>))"

definition recordModelUseStart :: "routerService \<Rightarrow> string \<Rightarrow> routerService" where
  "recordModelUseStart svc providerName =
     (let currentCount = orDefault (activeConnections svc providerName) 0
      in svc\<lparr> activeConnections := (activeConnections svc)(providerName \<mapsto> currentCount + 1) \<rparr>)"

record useStats =
  responseTime :: real
  success :: bool
  useCostEfficiency :: real

definition recordModelUseEnd ::
  "routerService \<Rightarrow> string \<Rightarrow> useStats option \<Rightarrow> routerService" where
  "recordModelUseEnd svc providerName stats =
     (let currentCount = orDefault (activeConnections svc providerName) 1;
          svc1 = svc\<lparr> activeConnections :=
                   (activeConnections svc)(providerName \<mapsto> nat (max 0 (int currentCount - 1))) \<rparr>
      in case stats of
           None \<Rightarrow> svc1
         | Some st \<Rightarrow>
             (let currentStats = (case modelStats svc1 providerName of
                                    Some cs \<Rightarrow> cs
                                  | None \<Rightarrow> \<lparr> avgResponseTime = 0, successRate = 1,
                                              statsCostEfficiency = 0.5, totalCalls = 0 \<rparr>);
                  n = totalCalls currentStats + 1;
                  newStats =
                    \<lparr> avgResponseTime =
                        fdiv (fadd (fmul (avgResponseTime currentStats)
                                         (real (totalCalls currentStats)))
                                   (responseTime st)) (real n),
                      successRate =
                        fdiv (fadd (fmul (successRate currentStats)
                                         (real (totalCalls currentStats)))
                                   (if success st then 1 else 0)) (real n),
                      statsCostEfficiency =
                        fdiv (fadd (fmul (statsCostEfficiency currentStats)
                                         (real (totalCalls currentStats)))
                                   (useCostEfficiency st)) (real n),
                      totalCalls = n \<rparr>
              in svc1\<lparr> modelStats := (modelStats svc1)(providerName \<mapsto> newStats) \<rparr>))"

text \<open>The table \<open>fallbackTypes\<close> of \<open>getBackupModel\<close> and of
  \<open>applyCostControlStrategy\<close>: a type that is not a key has no fallback.\<close>

fun fallbackTypes :: "modelType \<Rightarrow> modelType option" where
  "fallbackTypes Remote = Some Hybrid"
| "fallbackTypes Hybrid = Some Local"
| "fallbackTypes Local = None"

text \<open>The table strictly lowers this rank, which bounds the recursion of
  \<open>getBackupModel\<close>.\<close>

fun typeRank :: "modelType \<Rightarrow> nat" where
  "typeRank Local = 0"
| "typeRank Hybrid = 1"
| "typeRank Remote = 2"

function getBackupModel ::
  "routerService \<Rightarrow> string \<Rightarrow> modelType \<Rightarrow> metadata \<Rightarrow> thrown + modelInfo option" where
  "getBackupModel svc primaryProvider mt md =
     (let availableProviders =
            filter (\<lambda>p. fst p \<noteq> primaryProvider) (getAvailableProviders svc mt md)
      in if length availableProviders = 0
         then (case fallbackTypes mt of
                 Some fallbackType \<Rightarrow> getBackupModel svc primaryProvider fallbackType md
               | None \<Rightarrow> Inr None)
         else (case selectBestProvider svc availableProviders 0.5 md of
                 None \<Rightarrow> Inl TypeError
               | Some backupProvider \<Rightarrow>
                   Inr (Some \<lparr> provider = fst backupProvider, modelType = mt,
                               modelConfig = snd backupProvider, estimatedCost = None,
                               costControlled = False, isBackup = True \<rparr>)))"
  by pat_completeness auto
termination
  by (relation "measure (\<lambda>(svc, p, mt, md). typeRank mt)")
     (auto elim: fallbackTypes.elims)

declare getBackupModel.simps [simp del]

definition applyCostControlStrategy ::
  "routerService \<Rightarrow> modelInfo \<Rightarrow> metadata \<Rightarrow> thrown + modelInfo" where
  "applyCostControlStrategy svc info md =
     (let b = (case budget md of Some v \<Rightarrow> v | None \<Rightarrow> Infinity);
          overBudget = (case estimatedCost info of Some c \<Rightarrow> numGt c b | None \<Rightarrow> False)
      in if overBudget
         then (case fallbackTypes (modelType info) of
                 None \<Rightarrow> Inl (GatewayError COST_LIMIT_EXCEEDED)
               | Some fallbackType \<Rightarrow>
                   (let availableProviders = getAvailableProviders svc fallbackType md
                    in if length availableProviders > 0
                       then (case selectBestProvider svc availableProviders 0.5 md of
                               None \<Rightarrow> Inl TypeError
                             | Some cheaperProvider \<Rightarrow>
                                 (let cheaperCost = estimateCost (snd cheaperProvider) 0.5 md
                                  in if numLe cheaperCost b
                                     then Inr \<lparr> provider = fst cheaperProvider,
                                               modelType = fallbackType,
                                               modelConfig = snd cheaperProvider,
                                               estimatedCost = Some cheaperCost,
                                               costControlled = True, isBackup = False \<rparr>
                                     else Inl (GatewayError COST_LIMIT_EXCEEDED)))
                       else Inl (GatewayError COST_LIMIT_EXCEEDED)))
         else Inr info)"

section \<open>Dispatcher (modelGatewayService.processQuery)\<close>

text \<open>
  The request after \<open>processRequest\<close>: the preprocessor's outcome (the validated
  request with its metadata, or the error it threw) is an input of the dispatch.
\<close>

record queryRequest =
  request_id :: string
  query :: jsstring

text \<open>What an adapter call returns: the text, and the cost and the token total when
  the adapter reports them.\<close>

record modelResponse =
  responseText :: jsstring
  cost :: "real option"
  tokenTotal :: "nat option"

text \<open>
  \<open>adapterManager.callModel\<close> is outside the dispatcher (the tests replace it by a
  mock). It is a parameter: given the number of calls made before and the provider
  called, it returns a response or throws.
\<close>

type_synonym adapter = "nat \<Rightarrow> string \<Rightarrow> thrown + modelResponse"

text \<open>The dispatcher's world: the router service and the providers passed to
  \<open>callModel\<close> so far, oldest first.\<close>

record gateway =
  router :: routerService
  calls :: "string list"

record queryResult =
  result_request_id :: string
  response :: jsstring
  complexity_score :: real
  model_used :: string
  result_cost :: "real option"

text \<open>What the callback receives: the result, or the error (an error that is not a
  \<open>GatewayError\<close> is reported with the status INTERNAL).\<close>

datatype reply = Success queryResult | Failure thrown

text \<open>\<open>modelResponse.cost || estimatedCost\<close>.\<close>

definition costOr :: "real option \<Rightarrow> real option \<Rightarrow> real option" where
  "costOr c fallback = (case c of None \<Rightarrow> fallback | Some x \<Rightarrow> if x = 0 then fallback else Some x)"

text \<open>
  One dispatch. \<open>elapsed\<close> is the model processing time read from the clock. Logging
  and the monitoring calls are left out: they change neither the router nor the reply.
  In the source \<open>finalModelInfo\<close> is declared \<open>const\<close> (line 101), so the assignment
  \<open>finalModelInfo = backupModel\<close> that follows a successful backup call (line 171)
  throws a \<open>TypeError\<close>, which the outer handler reports.
\<close>

definition processQuery ::
  "adapter \<Rightarrow> real \<Rightarrow> thrown + (queryRequest \<times> metadata) \<Rightarrow> gateway \<Rightarrow> reply \<times> gateway" where
  "processQuery callModel elapsed pre gw =
     (case pre of
        Inl e \<Rightarrow> (Failure e, gw)
      | Inr (request, md) \<Rightarrow>
          (let complexityResult = evaluateQueryComplexity (query request);
               score = complexityScore complexityResult
           in case selectModelByComplexity (router gw) score
                     (complexityFactors complexityResult) md of
                Inl e \<Rightarrow> (Failure e, gw)
              | Inr info \<Rightarrow>
                  (case applyCostControlStrategy (router gw) info md of
                     Inl e \<Rightarrow> (Failure e, gw)
                   | Inr finalModelInfo \<Rightarrow>
                       (let gw1 = gw\<lparr> router :=
                                    recordModelUseStart (router gw) (provider finalModelInfo) \<rparr>;
                            gw2 = gw1\<lparr> calls := calls gw1 @ [provider finalModelInfo] \<rparr>
                        in case callModel (length (calls gw1)) (provider finalModelInfo) of
                             Inr modelResponse \<Rightarrow>
                               (let actualCost =
                                      costOr (cost modelResponse) (estimatedCost finalModelInfo);
                                    gw3 = gw2\<lparr> router :=
                                      recordModelUseEnd (router gw2) (provider finalModelInfo)
                                        (Some \<lparr> responseTime = elapsed, success = True,
                                                useCostEfficiency =
                                                  fdiv 1 (orDefault actualCost (dbl 0.001)) \<rparr>) \<rparr>
                                in (Success \<lparr> result_request_id = request_id request,
                                              response = responseText modelResponse,
                                              complexity_score = score,
                                              model_used = provider finalModelInfo,
                                              result_cost = actualCost \<rparr>, gw3))
                           | Inl err \<Rightarrow>
                               (case getBackupModel (router gw2) (provider finalModelInfo)
                                       (modelType finalModelInfo) md of
                                  Inl e \<Rightarrow> (Failure e, gw2)
                                | Inr None \<Rightarrow> (Failure (GatewayError MODEL_UNAVAILABLE), gw2)
                                | Inr (Some backupModel) \<Rightarrow>
                                    (let gw3 = gw2\<lparr> router :=
                                           recordModelUseStart (router gw2) (provider backupModel) \<rparr>;
                                         gw4 = gw3\<lparr> calls := calls gw3 @ [provider backupModel] \<rparr>
                                     in case callModel (length (calls gw3)) (provider backupModel) of
                                          Inl e \<Rightarrow> (Failure e, gw4)
                                        | Inr fallbackResponse \<Rightarrow> (Failure TypeError, gw4)))))))"

section \<open>Metrics and alerts (MetricsCollector, AlertManager, MonitoringService)\<close>

text \<open>Times are milliseconds since the epoch, read from the clock by the caller.\<close>

record costEntry =
  timestamp :: int
  entryCost :: real
  entryTokens :: nat

record costMetrics =
  totalCost :: real
  totalTokens :: nat
  history :: "costEntry list"

record modelMetrics =
  requestCount :: nat
  errorCount :: nat
  totalLatency :: real
  costs :: "costEntry list"

record cpuSample =
  cpuUser :: real
  cpuSystem :: real

text \<open>\<open>memory\<close> is \<open>None\<close> while the object is still the empty one of the
  constructor, and then the pair (process, system).\<close>

record resources =
  cpu :: "cpuSample list"
  memory :: "(real \<times> real) option"

record metricsCollector =
  perfRequestCount :: nat
  perfErrorCount :: nat
  latencies :: "real list"
  lastMinuteRequests :: "(int \<times> real) list"
  collectorResources :: resources
  models :: "(string \<times> modelMetrics) list"
  collectorCosts :: "(string \<times> costMetrics) list"

text \<open>\<open>Map.set\<close>: an existing key keeps its place, a new key goes last.\<close>

fun mapSet :: "string \<Rightarrow> 'v \<Rightarrow> (string \<times> 'v) list \<Rightarrow> (string \<times> 'v) list" where
  "mapSet k v [] = [(k, v)]"
| "mapSet k v ((k', v') # rest) =
     (if k' = k then (k, v) # rest else (k', v') # mapSet k v rest)"

definition cleanupOldMetrics :: "int \<Rightarrow> metricsCollector \<Rightarrow> metricsCollector" where
  "cleanupOldMetrics now mc =
     (let oneMinuteAgo = now - 60000;
          mc1 = mc\<lparr> lastMinuteRequests :=
                  filter (\<lambda>req. fst req > oneMinuteAgo) (lastMinuteRequests mc) \<rparr>
      in if length (latencies mc1) > 1000
         then mc1\<lparr> latencies := drop (length (latencies mc1) - 1000) (latencies mc1) \<rparr>
         else mc1)"

text \<open>\<open>MetricsCollector.recordRequest\<close>, for a request that names its model. The
  event it emits reaches \<open>checkPerformanceMetrics\<close> only and is left out.\<close>

definition recordRequest ::
  "int \<Rightarrow> string \<Rightarrow> real \<Rightarrow> bool \<Rightarrow> real option \<Rightarrow> nat \<Rightarrow> metricsCollector \<Rightarrow> metricsCollector" where
  "recordRequest now mid duration ok c tokens mc =
     (let mc1 = mc\<lparr> perfRequestCount := perfRequestCount mc + 1,
                     perfErrorCount := (if ok then perfErrorCount mc else perfErrorCount mc + 1),
                     latencies := latencies mc @ [duration],
                     lastMinuteRequests := lastMinuteRequests mc @ [(now, duration)] \<rparr>;
          mc2 = cleanupOldMetrics now mc1;
          mm = (case map_of (models mc2) mid of
                  Some m \<Rightarrow> m
                | None \<Rightarrow> \<lparr> requestCount = 0, errorCount = 0, totalLatency = 0, costs = [] \<rparr>);
          mm1 = mm\<lparr> requestCount := requestCount mm + 1,
                     errorCount := (if ok then errorCount mm else errorCount mm + 1),
                     totalLatency := fadd (totalLatency mm) duration \<rparr>;
          mm2 = (case c of
                   None \<Rightarrow> mm1
                 | Some x \<Rightarrow>
                     if x = 0 then mm1
                     else mm1\<lparr> costs := costs mm1 @
                            [\<lparr> timestamp = now, entryCost = x, entryTokens = tokens \<rparr>] \<rparr>)
      in mc2\<lparr> models := mapSet mid mm2 (models mc2) \<rparr>)"

definition recordCost :: "int \<Rightarrow> string \<Rightarrow> real \<Rightarrow> nat \<Rightarrow> metricsCollector \<Rightarrow> metricsCollector" where
  "recordCost now mid c tokens mc =
     (let cm = (case map_of (collectorCosts mc) mid of
                  Some m \<Rightarrow> m
                | None \<Rightarrow> \<lparr> totalCost = 0, totalTokens = 0, history = [] \<rparr>);
          cm1 = cm\<lparr> totalCost := fadd (totalCost cm) c,
                     totalTokens := totalTokens cm + tokens,
                     history := history cm @
                       [\<lparr> timestamp = now, entryCost = c, entryTokens = tokens \<rparr>] \<rparr>
      in mc\<lparr> collectorCosts := mapSet mid cm1 (collectorCosts mc) \<rparr>)"

text \<open>
  The summary object; its \<open>models\<close> array and the heap figures, which no check
  reads, are left out. An entry of its \<open>costs\<close> array is built with the properties
  \<open>modelId\<close>, \<open>totalCost\<close> and \<open>totalTokens\<close> only (lines 290 to 294), so reading
  its \<open>history\<close> gives \<open>undefined\<close>: \<open>costHistory = None\<close>. The check reads
  \<open>history\<close> of whatever entries it is given, so the field is optional in the model.
\<close>

record costSummary =
  costModelId :: string
  costTotal :: real
  costTokens :: nat
  costHistory :: "costEntry list option"

record metricsSummary =
  summaryRequestCount :: nat
  errorRate :: real
  averageLatency :: real
  requestsPerMinute :: nat
  summaryResources :: resources
  summaryCosts :: "costSummary list"

definition getResourceMetrics :: "metricsCollector \<Rightarrow> resources" where
  "getResourceMetrics mc =
     \<lparr> cpu = drop (length (cpu (collectorResources mc)) - 60) (cpu (collectorResources mc)),
       memory = memory (collectorResources mc) \<rparr>"

definition getMetricsSummary :: "metricsCollector \<Rightarrow> metricsSummary" where
  "getMetricsSummary mc =
     \<lparr> summaryRequestCount = perfRequestCount mc,
       errorRate = (if perfRequestCount mc = 0 then 0
                    else fdiv (real (perfErrorCount mc)) (real (perfRequestCount mc))),
       averageLatency = (if length (latencies mc) > 0
                         then fdiv (foldl fadd 0 (latencies mc)) (real (length (latencies mc)))
                         else 0),
       requestsPerMinute = length (lastMinuteRequests mc),
       summaryResources = getResourceMetrics mc,
       summaryCosts = map (\<lambda>(mid, m). \<lparr> costModelId = mid, costTotal = totalCost m,
                                           costTokens = totalTokens m, costHistory = None \<rparr>)
                          (collectorCosts mc) \<rparr>"

record thresholds =
  errorRateThreshold :: real
  latencyThreshold :: real
  costDaily :: real
  costMonthly :: real
  memoryUsage :: real
  cpuUsage :: real

text \<open>An alert, without its identifier, message and time stamp.\<close>

record alert =
  alertType :: string
  severity :: string
  alertData :: real

record alertManager =
  alerts :: "alert list"
  alertThresholds :: thresholds

definition generateAlert :: "string \<Rightarrow> string \<Rightarrow> real \<Rightarrow> alertManager \<Rightarrow> alertManager" where
  "generateAlert ty sev d am =
     am\<lparr> alerts := alerts am @ [\<lparr> alertType = ty, severity = sev, alertData = d \<rparr>] \<rparr>"

definition checkPerformanceMetrics :: "metricsSummary \<Rightarrow> alertManager \<Rightarrow> alertManager" where
  "checkPerformanceMetrics ms am =
     (let am1 = (if errorRate ms > errorRateThreshold (alertThresholds am)
                 then generateAlert ''error_rate'' ''high'' (errorRate ms) am else am)
      in if averageLatency ms > latencyThreshold (alertThresholds am1)
         then generateAlert ''latency'' ''medium'' (averageLatency ms) am1 else am1)"

text \<open>The memory quotient with a missing operand is \<open>NaN\<close>, which exceeds nothing;
  with a zero divisor it is \<open>Infinity\<close> for a positive numerator (the alert's datum
  is then written 0 here) and \<open>NaN\<close> for zero.\<close>

definition checkResourceMetrics :: "resources \<Rightarrow> alertManager \<Rightarrow> alertManager" where
  "checkResourceMetrics res am =
     (let am1 = (case memory res of
                   None \<Rightarrow> am
                 | Some (proc, sys) \<Rightarrow>
                     if sys = 0 then (if proc > 0 then generateAlert ''memory'' ''high'' 0 am else am)
                     else if fdiv proc sys > memoryUsage (alertThresholds am)
                     then generateAlert ''memory'' ''high'' (fdiv proc sys) am else am)
      in if length (cpu res) > 0
         then (let lastCpuUsage = last (cpu res);
                   totalCpuUsage =
                     fdiv (fadd (cpuUser lastCpuUsage) (cpuSystem lastCpuUsage)) 1000000
               in if totalCpuUsage > cpuUsage (alertThresholds am1)
                  then generateAlert ''cpu'' ''medium'' totalCpuUsage am1 else am1)
         else am1)"

text \<open>The loop of \<open>checkCostMetrics\<close> over the entries of its argument, carrying
  \<open>dailyTotal\<close> and \<open>monthlyTotal\<close>; one reading of the clock serves the whole
  loop. Calling \<open>filter\<close> on a \<open>history\<close> that is \<open>undefined\<close> throws a
  \<open>TypeError\<close>.\<close>

fun costTotals :: "int \<Rightarrow> costSummary list \<Rightarrow> real \<times> real \<Rightarrow> thrown + (real \<times> real)" where
  "costTotals now [] totals = Inr totals"
| "costTotals now (metrics # rest) (dailyTotal, monthlyTotal) =
     (let oneDayAgo = now - 24 * 60 * 60 * 1000;
          oneMonthAgo = now - 30 * 24 * 60 * 60 * 1000
      in case costHistory metrics of
           None \<Rightarrow> Inl TypeError
         | Some h \<Rightarrow>
             (let dailyCosts =
                    foldl (\<lambda>sum entry. fadd sum (entryCost entry)) 0
                      (filter (\<lambda>entry. timestamp entry > oneDayAgo) h);
                  monthlyCosts =
                    foldl (\<lambda>sum entry. fadd sum (entryCost entry)) 0
                      (filter (\<lambda>entry. timestamp entry > oneMonthAgo) h)
              in costTotals now rest
                   (fadd dailyTotal dailyCosts, fadd monthlyTotal monthlyCosts)))"

definition checkCostMetrics :: "int \<Rightarrow> costSummary list \<Rightarrow> alertManager \<Rightarrow> thrown + alertManager" where
  "checkCostMetrics now cs am =
     (case costTotals now cs (0, 0) of
        Inl e \<Rightarrow> Inl e
      | Inr (dailyTotal, monthlyTotal) \<Rightarrow>
          (let am1 = (if dailyTotal > costDaily (alertThresholds am)
                      then generateAlert ''cost_daily'' ''high'' dailyTotal am else am)
           in Inr (if monthlyTotal > costMonthly (alertThresholds am1)
                   then generateAlert ''cost_monthly'' ''critical'' monthlyTotal am1 else am1)))"

text \<open>\<open>MonitoringService.runHealthChecks\<close>: the three checks in order inside one
  \<open>try\<close>; an error is logged and the alerts raised before it stay.\<close>

definition runHealthChecks :: "int \<Rightarrow> metricsSummary \<Rightarrow> alertManager \<Rightarrow> alertManager" where
  "runHealthChecks now ms am =
     (let am1 = checkPerformanceMetrics ms am;
          am2 = checkResourceMetrics (summaryResources ms) am1
      in case checkCostMetrics now (summaryCosts ms) am2 of
           Inl e \<Rightarrow> am2
         | Inr am3 \<Rightarrow> am3)"

section \<open>The quantities of the specification\<close>

text \<open>
  The words of the specification, written without the functions of the source, to
  compare the evaluator with. The white-space separated tokens of a string are its
  maximal runs of characters that are not white space; \<open>inToken\<close> says that the
  previous character belongs to a token.
\<close>

fun countTokens :: "bool \<Rightarrow> jsstring \<Rightarrow> nat" where
  "countTokens inToken [] = (if inToken then 1 else 0)"
| "countTokens inToken (c # cs) =
     (if isWhiteSpace c then (if inToken then 1 else 0) + countTokens False cs
      else countTokens True cs)"

definition tokenCount :: "jsstring \<Rightarrow> nat" where
  "tokenCount q = countTokens False q"

text \<open>The total length of the tokens: the characters that are not white space.\<close>

definition tokenLength :: "jsstring \<Rightarrow> nat" where
  "tokenLength q = length (filter (\<lambda>c. \<not> isWhiteSpace c) q)"

text \<open>The number of pieces \<open>split\<close> makes of a string at its runs of white space: its
  tokens, one empty piece more when the string is empty or starts with white space, and
  one more when it ends with white space.\<close>

definition pieceCount :: "jsstring \<Rightarrow> nat" where
  "pieceCount q =
     tokenCount q
     + (case q of [] \<Rightarrow> 1 | c # cs \<Rightarrow> if isWhiteSpace c then 1 else 0)
     + (if q \<noteq> [] \<and> isWhiteSpace (last q) then 1 else 0)"

text \<open>The sentences: the parts between runs of the marks \<open>.\<close>, \<open>!\<close> and \<open>?\<close> that
  are not empty once trimmed, that is, that hold a character other than white space.
  \<open>seen\<close> says that the part being read holds one already.\<close>

fun countParts :: "bool \<Rightarrow> jsstring \<Rightarrow> nat" where
  "countParts seen [] = (if seen then 1 else 0)"
| "countParts seen (c # cs) =
     (if c = 0x2E \<or> c = 0x21 \<or> c = 0x3F
      then (if seen then 1 else 0) + countParts False cs
      else countParts (if isWhiteSpace c then seen else True) cs)"

definition sentencePartCount :: "jsstring \<Rightarrow> nat" where
  "sentencePartCount q = countParts False q"

text \<open>The formula of the specification, each operation on doubles, for a token count
  \<open>W\<close>, a total token length \<open>L\<close> and a sentence count \<open>S\<close>.\<close>

definition vocabularyFormula :: "nat \<Rightarrow> nat \<Rightarrow> real" where
  "vocabularyFormula W L =
     fadd (fmul 0.5 (min (fdiv (real W) 100) 1))
          (fmul 0.5 (min (fdiv (fdiv (real L) (real W)) 10) 1))"

definition grammarFormula :: "nat \<Rightarrow> nat \<Rightarrow> real" where
  "grammarFormula W S = min (fdiv (fdiv (real W) (real S)) 20) 1"

definition scoreFormula :: "nat \<Rightarrow> nat \<Rightarrow> nat \<Rightarrow> real" where
  "scoreFormula W L S =
     fadd (fmul (dbl 0.6) (vocabularyFormula W L)) (fmul (dbl 0.4) (grammarFormula W S))"

text \<open>The score as the specification words it: \<open>W\<close> is the number of white-space
  separated tokens.\<close>

definition claimedScore :: "jsstring \<Rightarrow> real" where
  "claimedScore q =
     scoreFormula (tokenCount q) (tokenLength q) (max (sentencePartCount q) 1)"

text \<open>The invariant of the specification: no configured provider has more calls in
  flight than its limit.\<close>

definition withinLimits :: "routerService \<Rightarrow> bool" where
  "withinLimits svc =
     list_all (\<lambda>(name, config).
        orDefault (activeConnections svc name) 0 \<le> orDefault (maxConcurrentQueries config) 10)
       (modelProviders svc)"

section \<open>The configuration of the integration tests\<close>

text \<open>The provider table and the thresholds that the integration tests install in
  place of the configuration module, and the inputs of the scenarios evaluated below.\<close>

definition openaiConfig :: providerConfig where
  "openaiConfig = \<lparr> status = Online, supportedModelTypes = Some [Remote],
     maxConcurrentQueries = Some 10, baseCostPerQuery = Some (dbl 0.02),
     maxCostPerQuery = Some (dbl 0.1), costEfficiency = None \<rparr>"

definition anthropicConfig :: providerConfig where
  "anthropicConfig = \<lparr> status = Online, supportedModelTypes = Some [Hybrid, Remote],
     maxConcurrentQueries = Some 5, baseCostPerQuery = Some (dbl 0.03),
     maxCostPerQuery = Some (dbl 0.15), costEfficiency = None \<rparr>"

definition localConfig :: providerConfig where
  "localConfig = \<lparr> status = Online, supportedModelTypes = Some [Local],
     maxConcurrentQueries = Some 20, baseCostPerQuery = Some (dbl 0.001),
     maxCostPerQuery = Some (dbl 0.01), costEfficiency = None \<rparr>"

definition testStrategy :: strategy where
  "testStrategy = \<lparr> lowComplexityThreshold = dbl 0.3, highComplexityThreshold = dbl 0.7 \<rparr>"

definition testProviders :: "(string \<times> providerConfig) list" where
  "testProviders =
     [(''openai'', openaiConfig), (''anthropic'', anthropicConfig), (''local'', localConfig)]"

definition testService :: routerService where
  "testService = \<lparr> routingStrategy = testStrategy, modelProviders = testProviders,
     activeConnections = Map.empty, modelStats = Map.empty \<rparr>"

text \<open>The query of the fallback tests (thirteen code units, no white space and no
  sentence mark) and the metadata the preprocessor extracts for it.\<close>

definition testQuery :: jsstring where
  "testQuery = [0x89E3, 0x91CA, 0x4E00, 0x4E0B, 0x91CF, 0x5B50, 0x8BA1, 0x7B97, 0x7684,
                0x57FA, 0x672C, 0x539F, 0x7406]"

definition testRequest :: queryRequest where
  "testRequest = \<lparr> request_id = ''r1'', query = testQuery \<rparr>"

definition testMetadata :: metadata where
  "testMetadata = \<lparr> queryLength = 13, budget = None \<rparr>"

definition testGateway :: gateway where
  "testGateway = \<lparr> router = testService, calls = [] \<rparr>"

text \<open>The mock of the fallback test: the first call throws and the second answers with
  the backup text, cost 0.03 and 25 tokens (a dispatch makes no third call).\<close>

definition backupResponse :: "string \<Rightarrow> modelResponse" where
  "backupResponse p =
     \<lparr> responseText = map (\<lambda>c. of_nat (of_char c)) (''Backup model response from '' @ p),
       cost = Some (dbl 0.03), tokenTotal = Some 25 \<rparr>"

definition failOnce :: adapter where
  "failOnce n p = (if n = 0 then Inl AdapterFailure else Inr (backupResponse p))"

text \<open>The mock of the test in which every provider fails.\<close>

definition alwaysFail :: adapter where
  "alwaysFail n p = Inl AdapterFailure"

text \<open>The decisions the router takes in these scenarios.\<close>

definition anthropicInfo :: modelInfo where
  "anthropicInfo = \<lparr> provider = ''anthropic'', modelType = Hybrid,
      modelConfig = anthropicConfig,
      estimatedCost = Some (estimateCost anthropicConfig
                              (complexityScore (evaluateQueryComplexity testQuery)) testMetadata),
      costControlled = False, isBackup = False \<rparr>"

definition localBackup :: modelInfo where
  "localBackup = \<lparr> provider = ''local'', modelType = Local, modelConfig = localConfig,
      estimatedCost = None, costControlled = False, isBackup = True \<rparr>"

text \<open>A request of sixteen code units with the budget string \<open>"0.005"\<close>, and the
  remote decision taken for it at score 0.9.\<close>

definition lowBudgetMetadata :: metadata where
  "lowBudgetMetadata = \<lparr> queryLength = 16, budget = Some (Finite (dbl (5 / 1000))) \<rparr>"

definition openaiInfo :: modelInfo where
  "openaiInfo = \<lparr> provider = ''openai'', modelType = Remote, modelConfig = openaiConfig,
      estimatedCost = Some (estimateCost openaiConfig (dbl (9 / 10)) lowBudgetMetadata),
      costControlled = False, isBackup = False \<rparr>"

text \<open>A budget that covers the largest cost cap of the table.\<close>

definition ampleBudgetMetadata :: metadata where
  "ampleBudgetMetadata = \<lparr> queryLength = 13, budget = Some (Finite (dbl (15 / 100))) \<rparr>"

definition anthropicAmpleInfo :: modelInfo where
  "anthropicAmpleInfo = \<lparr> provider = ''anthropic'', modelType = Hybrid,
      modelConfig = anthropicConfig,
      estimatedCost = Some (estimateCost anthropicConfig (1 / 2) ampleBudgetMetadata),
      costControlled = False, isBackup = False \<rparr>"

text \<open>The test service with four calls in flight on \<open>anthropic\<close>, whose limit is
  five.\<close>

definition nearLimitService :: routerService where
  "nearLimitService = testService\<lparr> activeConnections := [''anthropic'' \<mapsto> 4] \<rparr>"

text \<open>The test service with \<open>anthropic\<close> at its limit of five.\<close>

definition atLimitService :: routerService where
  "atLimitService = testService\<lparr> activeConnections := [''anthropic'' \<mapsto> 5] \<rparr>"

text \<open>A provider whose entry gives its status only, and a service that has nine calls
  in flight on it.\<close>

definition bareConfig :: providerConfig where
  "bareConfig = \<lparr> status = Online, supportedModelTypes = None, maxConcurrentQueries = None,
     baseCostPerQuery = None, maxCostPerQuery = None, costEfficiency = None \<rparr>"

definition bareService :: routerService where
  "bareService = \<lparr> routingStrategy = testStrategy, modelProviders = [(''bare'', bareConfig)],
     activeConnections = [''bare'' \<mapsto> 9], modelStats = Map.empty \<rparr>"

text \<open>Thirteen one-letter words separated by single spaces, and the tags of the
  specification as code units.\<close>

definition thirteenWords :: jsstring where
  "thirteenWords = [0x61, 0x20, 0x61, 0x20, 0x61, 0x20, 0x61, 0x20, 0x61, 0x20, 0x61, 0x20,
                    0x61, 0x20, 0x61, 0x20, 0x61, 0x20, 0x61, 0x20, 0x61, 0x20, 0x61, 0x20, 0x61]"

definition asciiTag :: "string \<Rightarrow> jsstring" where
  "asciiTag s = map (\<lambda>c. of_nat (of_char c)) s"

text \<open>The query \<open>" abc "\<close>, with a space before and after its one token.\<close>

definition spacedAbc :: jsstring where
  "spacedAbc = [0x20, 0x61, 0x62, 0x63, 0x20]"

text \<open>Forty words of eight letters, separated by single spaces.\<close>

definition fortyWords :: jsstring where
  "fortyWords =
     concat (replicate 39 [0x61, 0x62, 0x63, 0x64, 0x65, 0x66, 0x67, 0x68, 0x20])
     @ [0x61, 0x62, 0x63, 0x64, 0x65, 0x66, 0x67, 0x68]"

text \<open>A service whose only provider, a local one, is configured with the maximum cost
  0 per query; a request of thirteen code units with the budget string \<open>"0.001"\<close>,
  and the decision taken for it at score 0.2.\<close>

definition zeroCapConfig :: providerConfig where
  "zeroCapConfig = \<lparr> status = Online, supportedModelTypes = Some [Local],
     maxConcurrentQueries = Some 10, baseCostPerQuery = Some (dbl 0.02),
     maxCostPerQuery = Some 0, costEfficiency = None \<rparr>"

definition zeroCapService :: routerService where
  "zeroCapService = \<lparr> routingStrategy = testStrategy,
     modelProviders = [(''local'', zeroCapConfig)],
     activeConnections = Map.empty, modelStats = Map.empty \<rparr>"

definition zeroCapMetadata :: metadata where
  "zeroCapMetadata = \<lparr> queryLength = 13, budget = Some (Finite (dbl (1 / 1000))) \<rparr>"

definition zeroCapInfo :: modelInfo where
  "zeroCapInfo = \<lparr> provider = ''local'', modelType = Local, modelConfig = zeroCapConfig,
      estimatedCost = Some (estimateCost zeroCapConfig (dbl (1 / 5)) zeroCapMetadata),
      costControlled = False, isBackup = False \<rparr>"

text \<open>The monitoring objects as their constructors leave them, with the cost thresholds
  of the cost-alert test (10 a day, 100 a month), and the collector after ten calls of
  \<open>recordCost\<close> (cost 2, 1000 tokens) or ten successful requests of cost 2.\<close>

definition initialCollector :: metricsCollector where
  "initialCollector = \<lparr> perfRequestCount = 0, perfErrorCount = 0, latencies = [],
     lastMinuteRequests = [], collectorResources = \<lparr> cpu = [], memory = None \<rparr>,
     models = [], collectorCosts = [] \<rparr>"

definition testAlertManager :: alertManager where
  "testAlertManager = \<lparr> alerts = [],
     alertThresholds = \<lparr> errorRateThreshold = dbl 0.1, latencyThreshold = 2000,
       costDaily = 10, costMonthly = 100, memoryUsage = dbl 0.9, cpuUsage = dbl 0.8 \<rparr> \<rparr>"

definition costsRecorded :: metricsCollector where
  "costsRecorded = (recordCost 1000000 ''openai'' 2 1000 ^^ 10) initialCollector"

definition requestsRecorded :: metricsCollector where
  "requestsRecorded =
     (recordRequest 1000000 ''openai'' 500 True (Some 2) 1000 ^^ 10) initialCollector"

text \<open>The cost recorded in the collector over the 24 hours before \<open>now\<close>.\<close>

definition dailyCostOf :: "int \<Rightarrow> metricsCollector \<Rightarrow> real" where
  "dailyCostOf now mc =
     sum_list (map (\<lambda>(mid, m). sum_list (map entryCost
        (filter (\<lambda>entry. timestamp entry > now - 24 * 60 * 60 * 1000) (history m))))
        (collectorCosts mc))"

text \<open>The alerts of kind \<open>cost_daily\<close> an alert manager holds.\<close>

definition costDailyAlerts :: "alertManager \<Rightarrow> alert list" where
  "costDailyAlerts am = filter (\<lambda>a. alertType a = ''cost_daily'') (alerts am)"

section \<open>Properties\<close>

subsection \<open>Rounding to a double\<close>

lemmas dbl_eval = fadd_def fsub_def fmul_def fdiv_def dbl_def rnd_def ulpExp_def expo.simps
  roundEven_def Let_def

lemma roundEven_of_int: "roundEven (of_int n) = n"
  by (simp add: roundEven_def)

lemma roundEven_ge_floor: "\<lfloor>r\<rfloor> \<le> roundEven r"
  by (simp add: roundEven_def Let_def)

lemma roundEven_le_floor_Suc: "roundEven r \<le> \<lfloor>r\<rfloor> + 1"
  by (simp add: roundEven_def Let_def)

lemma roundEven_mono:
  assumes "r \<le> s"
  shows "roundEven r \<le> roundEven s"
proof (cases "\<lfloor>r\<rfloor> = \<lfloor>s\<rfloor>")
  case True
  have "r - of_int \<lfloor>r\<rfloor> \<le> s - of_int \<lfloor>s\<rfloor>" using assms True by simp
  then show ?thesis unfolding roundEven_def Let_def True by auto
next
  case False
  have "\<lfloor>r\<rfloor> \<le> \<lfloor>s\<rfloor>" using assms by (rule floor_mono)
  then have "\<lfloor>r\<rfloor> + 1 \<le> \<lfloor>s\<rfloor>" using False by simp
  then show ?thesis
    using roundEven_le_floor_Suc [of r] roundEven_ge_floor [of s] by linarith
qed

lemma roundEven_lower: "of_int n \<le> r \<Longrightarrow> n \<le> roundEven r"
  using roundEven_mono [of "of_int n" r] by (simp add: roundEven_of_int)

lemma roundEven_upper: "r \<le> of_int n \<Longrightarrow> roundEven r \<le> n"
  using roundEven_mono [of r "of_int n"] by (simp add: roundEven_of_int)

text \<open>\<open>expo\<close> is the binary exponent.\<close>

lemma expo_bracket:
  "0 < x \<Longrightarrow> 2 powi expo x \<le> x \<and> x < 2 powi (expo x + 1)"
proof (induction x rule: expo.induct)
  case (1 x)
  show ?case
  proof (cases "2 \<le> x")
    case True
    then have ih: "2 powi expo (x / 2) \<le> x / 2 \<and> x / 2 < 2 powi (expo (x / 2) + 1)"
      using "1.IH"(1) "1.prems" by simp
    have e: "expo x = expo (x / 2) + 1" using True by (simp add: expo.simps [of x])
    have p: "(2::real) powi (expo (x / 2) + 1 + 1) = 2 * 2 powi (expo (x / 2) + 1)"
      "(2::real) powi (expo (x / 2) + 1) = 2 * 2 powi expo (x / 2)"
      by (simp_all add: power_int_add)
    show ?thesis unfolding e using ih p by linarith
  next
    case False
    show ?thesis
    proof (cases "x < 1")
      case True
      then have c: "0 < x \<and> x < 1" using "1.prems" by simp
      have ih: "2 powi expo (2 * x) \<le> 2 * x \<and> 2 * x < 2 powi (expo (2 * x) + 1)"
        using "1.IH"(2) [OF False c] "1.prems" by simp
      have e: "expo x = expo (2 * x) - 1" using False c by (simp add: expo.simps [of x])
      have p: "(2::real) powi (expo (2 * x) - 1 + 1) = 2 powi expo (2 * x)"
        "(2::real) powi (expo (2 * x) + 1) = 2 * 2 powi expo (2 * x)"
        "(2::real) powi expo (2 * x) = 2 * 2 powi (expo (2 * x) - 1)"
        by (simp_all add: power_int_add power_int_diff)
      show ?thesis unfolding e using ih p by linarith
    next
      case nl: False
      have e: "expo x = 0" using False nl by (simp add: expo.simps [of x])
      show ?thesis unfolding e using False nl by simp
    qed
  qed
qed

lemma expo_mono:
  assumes "0 < x" and "x \<le> y"
  shows "expo x \<le> expo y"
proof -
  have "2 powi expo x \<le> x" using expo_bracket [OF assms(1)] by simp
  also have "\<dots> \<le> y" by (rule assms(2))
  also have "\<dots> < 2 powi (expo y + 1)" using expo_bracket [of y] assms by simp
  finally have lt: "(2::real) powi expo x < 2 powi (expo y + 1)" .
  have "\<not> expo y + 1 \<le> expo x"
  proof
    assume "expo y + 1 \<le> expo x"
    then have "(2::real) powi (expo y + 1) \<le> 2 powi expo x"
      by (intro power_int_increasing) simp_all
    then show False using lt by simp
  qed
  then show ?thesis by simp
qed

lemma rnd_nonneg: "0 < x \<Longrightarrow> 0 \<le> rnd x"
proof -
  assume "0 < x"
  then have "of_int 0 \<le> x / 2 powi ulpExp x" by simp
  then have "0 \<le> roundEven (x / 2 powi ulpExp x)" by (rule roundEven_lower)
  then show ?thesis by (simp add: rnd_def)
qed

text \<open>Rounding is monotone. Where the spacing changes between \<open>x\<close> and \<open>y\<close>, a power
  of two lies between them, and it is a double.\<close>

lemma rnd_mono:
  assumes "0 < x" and "x \<le> y"
  shows "rnd x \<le> rnd y"
proof -
  have y: "0 < y" using assms by simp
  have em: "expo x \<le> expo y" using expo_mono [OF assms] .
  then have um: "ulpExp x \<le> ulpExp y" by (simp add: ulpExp_def)
  show ?thesis
  proof (cases "ulpExp x = ulpExp y")
    case True
    have "x / 2 powi ulpExp y \<le> y / 2 powi ulpExp y"
      using assms(2) by (simp add: divide_right_mono)
    then have "roundEven (x / 2 powi ulpExp y) \<le> roundEven (y / 2 powi ulpExp y)"
      by (rule roundEven_mono)
    then show ?thesis unfolding rnd_def True
      by (simp add: mult_right_mono)
  next
    case False
    then have lt: "ulpExp x < ulpExp y" using um by simp
    define m where "m = max (expo x) (- 1022) + 1"
    have ux: "ulpExp x = m - 53" by (simp add: ulpExp_def m_def)
    have uy: "ulpExp y = expo y - 52" and my: "m \<le> expo y"
      using lt by (auto simp: ulpExp_def m_def max_def split: if_splits)
    have xm: "x < 2 powi m"
    proof -
      have "x < 2 powi (expo x + 1)" using expo_bracket [OF assms(1)] by simp
      also have "\<dots> \<le> 2 powi m" by (rule power_int_increasing) (simp_all add: m_def)
      finally show ?thesis .
    qed
    have "x / 2 powi ulpExp x \<le> 2 powi 53"
    proof -
      have "x / 2 powi ulpExp x \<le> 2 powi m / 2 powi (m - 53)"
        unfolding ux using xm by (simp add: divide_right_mono)
      also have "\<dots> = 2 powi 53" by (simp add: power_int_diff)
      finally show ?thesis .
    qed
    then have "x / 2 powi ulpExp x \<le> of_int (2 ^ 53)" by simp
    then have "roundEven (x / 2 powi ulpExp x) \<le> 2 ^ 53" by (rule roundEven_upper)
    then have "rnd x \<le> of_int (2 ^ 53) * 2 powi ulpExp x"
      unfolding rnd_def by (intro mult_right_mono) simp_all
    also have "\<dots> = 2 powi m" unfolding ux by (simp add: power_int_diff)
    also have "\<dots> \<le> 2 powi expo y" using my by (intro power_int_increasing) simp_all
    also have "\<dots> \<le> rnd y"
    proof -
      have "2 powi expo y \<le> y" using expo_bracket [OF y] by simp
      then have "2 powi expo y / 2 powi ulpExp y \<le> y / 2 powi ulpExp y"
        by (simp add: divide_right_mono)
      moreover have "(2::real) powi expo y / 2 powi ulpExp y = of_int (2 ^ 52)"
        unfolding uy by (simp add: power_int_diff)
      ultimately have "of_int (2 ^ 52) \<le> y / 2 powi ulpExp y" by simp
      then have "2 ^ 52 \<le> roundEven (y / 2 powi ulpExp y)" by (rule roundEven_lower)
      then have "of_int (2 ^ 52) * 2 powi ulpExp y \<le> rnd y"
        unfolding rnd_def by (intro mult_right_mono) simp_all
      moreover have "of_int (2 ^ 52) * 2 powi ulpExp y = (2::real) powi expo y"
        unfolding uy by (simp add: power_int_diff)
      ultimately show ?thesis by simp
    qed
    finally show ?thesis .
  qed
qed

lemma dbl_nonneg: "0 \<le> x \<Longrightarrow> 0 \<le> dbl x"
  using rnd_nonneg [of x] by (simp add: dbl_def)

lemma dbl_nonpos: "x \<le> 0 \<Longrightarrow> dbl x \<le> 0"
  using rnd_nonneg [of "- x"] by (simp add: dbl_def)

lemma dbl_mono:
  assumes "x \<le> y"
  shows "dbl x \<le> dbl y"
proof (cases "0 < x")
  case True
  then show ?thesis using rnd_mono [OF True assms] assms by (simp add: dbl_def)
next
  case False
  show ?thesis
  proof (cases "0 \<le> y")
    case True
    have "dbl x \<le> 0" using False by (simp add: dbl_nonpos)
    also have "\<dots> \<le> dbl y" using True by (rule dbl_nonneg)
    finally show ?thesis .
  next
    case ny: False
    then have "rnd (- y) \<le> rnd (- x)" using assms by (intro rnd_mono) simp_all
    then show ?thesis using ny assms by (simp add: dbl_def)
  qed
qed

lemma dbl_simps: "dbl 0 = 0" "dbl 1 = 1" "dbl (1 / 2) = 1 / 2"
  by (simp_all add: dbl_eval)

text \<open>The doubles of the decimal literals used below.\<close>

lemma dbl_literals:
  "dbl (3 / 5) = 5404319552844595 / 9007199254740992"
  "dbl (2 / 5) = 3602879701896397 / 9007199254740992"
  "dbl (3 / 10) = 5404319552844595 / 18014398509481984"
  "dbl (7 / 10) = 3152519739159347 / 4503599627370496"
  "dbl (9 / 10) = 8106479329266893 / 9007199254740992"
  "dbl (1 / 5) = 3602879701896397 / 18014398509481984"
  "dbl (1 / 50) = 5764607523034235 / 288230376151711744"
  "dbl (1 / 10) = 3602879701896397 / 36028797018963968"
  "dbl (3 / 100) = 1080863910568919 / 36028797018963968"
  "dbl (3 / 20) = 5404319552844595 / 36028797018963968"
  "dbl (1 / 1000) = 1152921504606847 / 1152921504606846976"
  "dbl (1 / 100) = 5764607523034235 / 576460752303423488"
  "dbl (1 / 200) = 5764607523034235 / 1152921504606846976"
  "dbl (19 / 20) = 4278419646001971 / 4503599627370496"
  "dbl (4 / 5) = 3602879701896397 / 4503599627370496"
  by (simp_all add: dbl_eval)

subsection \<open>The evaluator and the quantities of the specification\<close>

lemma splitRuns_nonempty: "splitRuns sep inRun cur s \<noteq> []"
  by (induction s arbitrary: inRun cur) auto

lemma wordCount_pos: "0 < wordCount q"
  by (simp add: wordCount_def words_def jsSplit_def splitRuns_nonempty)

lemma foldl_add_length:
  "foldl (\<lambda>sum word. sum + length word) a ws = a + sum_list (map length ws)"
  by (induction ws arbitrary: a) auto

text \<open>The pieces of \<open>split\<close> at white space are the tokens and the empty pieces at the
  two ends.\<close>

lemma length_splitRuns:
  assumes "inRun \<Longrightarrow> cur = []"
  shows "length (splitRuns isWhiteSpace inRun cur s) =
           countTokens (cur \<noteq> []) s
           + (if cur = [] \<and> \<not> inRun \<and> (case s of [] \<Rightarrow> True | c # cs \<Rightarrow> isWhiteSpace c)
              then 1 else 0)
           + (if (s \<noteq> [] \<and> isWhiteSpace (last s)) \<or> (s = [] \<and> inRun) then 1 else 0)"
  using assms
proof (induction s arbitrary: inRun cur)
  case Nil
  then show ?case by auto
next
  case (Cons c cs)
  show ?case
  proof (cases "isWhiteSpace c")
    case True
    have ih: "length (splitRuns isWhiteSpace True [] cs) =
        countTokens False cs + (if (cs \<noteq> [] \<and> isWhiteSpace (last cs)) \<or> cs = [] then 1 else 0)"
      using Cons.IH [of True "[]"] by simp
    show ?thesis using True Cons.prems ih by (cases cs) auto
  next
    case False
    have ih: "length (splitRuns isWhiteSpace False (c # cur) cs) =
        countTokens True cs + (if cs \<noteq> [] \<and> isWhiteSpace (last cs) then 1 else 0)"
      using Cons.IH [of False "c # cur"] by simp
    show ?thesis using False ih by (cases cs) auto
  qed
qed

lemma wordCount_pieceCount: "wordCount q = pieceCount q"
  using length_splitRuns [of False "[]" q]
  by (cases q) (simp_all add: wordCount_def words_def jsSplit_def pieceCount_def tokenCount_def)

lemma sum_length_splitRuns:
  "(inRun \<Longrightarrow> cur = []) \<Longrightarrow>
   sum_list (map length (splitRuns sep inRun cur s)) =
     length cur + length (filter (\<lambda>c. \<not> sep c) s)"
  by (induction s arbitrary: inRun cur) auto

lemma wordLength_tokenLength:
  "foldl (\<lambda>sum word. sum + length word) 0 (words q) = tokenLength q"
  by (simp add: foldl_add_length words_def jsSplit_def sum_length_splitRuns tokenLength_def)

text \<open>A piece is not empty once trimmed exactly when it holds a character that is
  not white space.\<close>

lemma jsTrim_nonempty: "(jsTrim p \<noteq> []) = (\<exists>c \<in> set p. \<not> isWhiteSpace c)"
proof
  assume "jsTrim p \<noteq> []"
  have "dropWhile isWhiteSpace p \<noteq> []"
  proof
    assume a: "dropWhile isWhiteSpace p = []"
    have "jsTrim p = []" unfolding jsTrim_def a by simp
    then show False using \<open>jsTrim p \<noteq> []\<close> by simp
  qed
  then show "\<exists>c \<in> set p. \<not> isWhiteSpace c"
    using dropWhile_eq_Nil_conv [of isWhiteSpace p] by blast
next
  assume "\<exists>c \<in> set p. \<not> isWhiteSpace c"
  then have ne: "dropWhile isWhiteSpace p \<noteq> []"
    using dropWhile_eq_Nil_conv [of isWhiteSpace p] by blast
  then have "\<not> isWhiteSpace (hd (dropWhile isWhiteSpace p))" by (rule hd_dropWhile)
  moreover have "hd (dropWhile isWhiteSpace p) \<in> set (rev (dropWhile isWhiteSpace p))"
    using ne by simp
  ultimately have "dropWhile isWhiteSpace (rev (dropWhile isWhiteSpace p)) \<noteq> []"
    unfolding dropWhile_eq_Nil_conv by blast
  then show "jsTrim p \<noteq> []" by (simp add: jsTrim_def)
qed

lemma parts_splitRuns:
  assumes "inRun \<Longrightarrow> cur = []"
  shows "length (filter (\<lambda>s. length (jsTrim s) > 0) (splitRuns isSentenceEnd inRun cur s)) =
           countParts (\<exists>c \<in> set cur. \<not> isWhiteSpace c) s"
  using assms
proof (induction s arbitrary: inRun cur)
  case Nil
  then show ?case by (simp add: jsTrim_nonempty)
next
  case (Cons c cs)
  show ?case
  proof (cases "isSentenceEnd c")
    case True
    then have m: "c = 0x2E \<or> c = 0x21 \<or> c = 0x3F" by (simp add: isSentenceEnd_def)
    have ih: "length (filter (\<lambda>s. length (jsTrim s) > 0) (splitRuns isSentenceEnd True [] cs)) =
        countParts False cs"
      using Cons.IH [of True "[]"] by simp
    show ?thesis using True m Cons.prems ih by (auto simp: jsTrim_nonempty)
  next
    case False
    then have m: "\<not> (c = 0x2E \<or> c = 0x21 \<or> c = 0x3F)" by (simp add: isSentenceEnd_def)
    have ih: "length (filter (\<lambda>s. length (jsTrim s) > 0)
                 (splitRuns isSentenceEnd False (c # cur) cs)) =
        countParts (\<exists>d \<in> set (c # cur). \<not> isWhiteSpace d) cs"
      using Cons.IH [of False "c # cur"] by simp
    have s: "(\<exists>d \<in> set (c # cur). \<not> isWhiteSpace d) =
        (if isWhiteSpace c then (\<exists>d \<in> set cur. \<not> isWhiteSpace d) else True)"
      by auto
    show ?thesis using False m ih unfolding s by simp
  qed
qed

lemma sentenceCount_parts: "sentenceCount q = max (sentencePartCount q) 1"
  using parts_splitRuns [of False "[]" q]
  by (simp add: sentenceCount_def sentences_def jsSplit_def sentencePartCount_def)

lemma fmul_commute: "fmul a b = fmul b a"
  by (simp add: fmul_def mult.commute)

lemma vocabularyComplexity_formula:
  "vocabularyComplexity q = vocabularyFormula (pieceCount q) (tokenLength q)"
  by (simp add: vocabularyComplexity_def vocabularyFormula_def avgWordLength_def
      wordLength_tokenLength wordCount_pieceCount fmul_commute [of _ "1 / 2"])

lemma grammarComplexity_formula:
  "grammarComplexity q = grammarFormula (pieceCount q) (max (sentencePartCount q) 1)"
  by (simp add: grammarComplexity_def grammarFormula_def avgSentenceLength_def
      wordCount_pieceCount sentenceCount_parts)

lemma fdiv_nonneg: "0 \<le> a \<Longrightarrow> 0 \<le> b \<Longrightarrow> 0 \<le> fdiv a b"
  by (simp add: fdiv_def dbl_nonneg)

lemma fmul_half_bounds:
  assumes "0 \<le> m" and "m \<le> 1"
  shows "0 \<le> fmul (1 / 2) m \<and> fmul (1 / 2) m \<le> 1 / 2"
proof -
  have "dbl (1 / 2 * m) \<le> dbl (1 / 2)" using assms by (intro dbl_mono) simp
  moreover have "0 \<le> dbl (1 / 2 * m)" using assms by (intro dbl_nonneg) simp
  ultimately show ?thesis by (simp add: fmul_def dbl_simps)
qed

lemma vocabularyFormula_bounds:
  "0 \<le> vocabularyFormula W L \<and> vocabularyFormula W L \<le> 1"
proof -
  let ?a = "fmul (1 / 2) (min (fdiv (real W) 100) 1)"
  let ?b = "fmul (1 / 2) (min (fdiv (fdiv (real L) (real W)) 10) 1)"
  have a: "0 \<le> ?a \<and> ?a \<le> 1 / 2"
    by (intro fmul_half_bounds) (simp_all add: fdiv_nonneg)
  have b: "0 \<le> ?b \<and> ?b \<le> 1 / 2"
    by (intro fmul_half_bounds) (simp_all add: fdiv_nonneg)
  have "dbl (?a + ?b) \<le> dbl 1" using a b by (intro dbl_mono) linarith
  moreover have "0 \<le> dbl (?a + ?b)" using a b by (intro dbl_nonneg) linarith
  ultimately show ?thesis by (simp add: vocabularyFormula_def fadd_def dbl_simps)
qed

lemma grammarFormula_bounds:
  "0 \<le> grammarFormula W S \<and> grammarFormula W S \<le> 1"
  by (simp add: grammarFormula_def fdiv_nonneg)

lemma scoreFormula_bounds:
  "0 \<le> scoreFormula W L S \<and> scoreFormula W L S \<le> 1"
proof -
  let ?v = "vocabularyFormula W L" and ?g = "grammarFormula W S"
  let ?c6 = "5404319552844595 / 9007199254740992 :: real"
  let ?c4 = "3602879701896397 / 9007199254740992 :: real"
  have v: "0 \<le> ?v \<and> ?v \<le> 1" by (rule vocabularyFormula_bounds)
  have g: "0 \<le> ?g \<and> ?g \<le> 1" by (rule grammarFormula_bounds)
  have fx: "dbl ?c6 = ?c6" "dbl ?c4 = ?c4" "?c6 + ?c4 = 1"
    by (simp_all add: dbl_eval)
  have a: "0 \<le> fmul ?c6 ?v \<and> fmul ?c6 ?v \<le> ?c6"
  proof -
    have "?c6 * ?v \<le> ?c6" using v by simp
    then have "dbl (?c6 * ?v) \<le> dbl ?c6" by (rule dbl_mono)
    moreover have "0 \<le> dbl (?c6 * ?v)" using v by (intro dbl_nonneg) simp
    ultimately show ?thesis unfolding fmul_def fx by simp
  qed
  have b: "0 \<le> fmul ?c4 ?g \<and> fmul ?c4 ?g \<le> ?c4"
  proof -
    have "?c4 * ?g \<le> ?c4" using g by simp
    then have "dbl (?c4 * ?g) \<le> dbl ?c4" by (rule dbl_mono)
    moreover have "0 \<le> dbl (?c4 * ?g)" using g by (intro dbl_nonneg) simp
    ultimately show ?thesis unfolding fmul_def fx by simp
  qed
  have "fmul ?c6 ?v + fmul ?c4 ?g \<le> 1" using a b fx(3) by linarith
  then have "dbl (fmul ?c6 ?v + fmul ?c4 ?g) \<le> dbl 1" by (rule dbl_mono)
  moreover have "0 \<le> dbl (fmul ?c6 ?v + fmul ?c4 ?g)" using a b by (intro dbl_nonneg) linarith
  ultimately show ?thesis
    by (simp add: scoreFormula_def fadd_def dbl_literals dbl_simps)
qed

lemma complexityScore_formula:
  "complexityScore (evaluateQueryComplexity q) =
     scoreFormula (pieceCount q) (tokenLength q) (max (sentencePartCount q) 1)"
  by (simp add: evaluateQueryComplexity_def scoreFormula_def vocabularyComplexity_formula
      grammarComplexity_formula fmul_commute)

subsection \<open>The router\<close>

lemma orDefault_nat_pos: "0 < d \<Longrightarrow> 0 < orDefault (v :: nat option) d"
  by (simp add: orDefault_def split: option.splits)

lemma orDefault_simps:
  "orDefault None d = d"
  "orDefault (Some (Suc n)) d = Suc n"
  "orDefault (Some (0::nat)) d = d"
  by (simp_all add: orDefault_def)

lemma selectBestProvider_mem:
  assumes "providers \<noteq> []"
  obtains best where "selectBestProvider svc providers score md = Some best"
    and "best \<in> set providers"
proof (cases "length providers = 1")
  case True
  then have "selectBestProvider svc providers score md = Some (hd providers)"
    by (simp add: selectBestProvider_def)
  moreover have "hd providers \<in> set providers" using assms by simp
  ultimately show ?thesis using that by blast
next
  case False
  let ?sorted = "sort_key (\<lambda>p. - providerScore svc p) providers"
  have "?sorted \<noteq> []" using assms by (metis length_sort length_0_conv)
  then obtain best rest where s: "?sorted = best # rest" by (cases ?sorted) auto
  have "best \<in> set ?sorted" by (simp add: s)
  then have "best \<in> set providers" by simp
  moreover have "selectBestProvider svc providers score md = Some best"
    using False by (simp add: selectBestProvider_def s)
  ultimately show ?thesis using that by blast
qed

lemma selectModelByComplexity_Inr:
  assumes "selectModelByComplexity svc score factors md = Inr info"
  shows "modelType info = chosenModelType (routingStrategy svc) score"
    and "(provider info, modelConfig info) \<in>
           set (getAvailableProviders svc (modelType info) md)"
    and "estimatedCost info = Some (estimateCost (modelConfig info) score md)"
proof -
  let ?mt = "chosenModelType (routingStrategy svc) score"
  let ?av = "getAvailableProviders svc ?mt md"
  have ne: "?av \<noteq> []"
    using assms by (auto simp: selectModelByComplexity_def Let_def)
  obtain best where b: "selectBestProvider svc ?av score md = Some best" "best \<in> set ?av"
    using selectBestProvider_mem [OF ne] by blast
  have info: "info = \<lparr> provider = fst best, modelType = ?mt, modelConfig = snd best,
                         estimatedCost = Some (estimateCost (snd best) score md),
                         costControlled = False, isBackup = False \<rparr>"
    using assms ne b by (simp add: selectModelByComplexity_def Let_def)
  show "modelType info = ?mt" by (simp add: info)
  show "(provider info, modelConfig info) \<in> set (getAvailableProviders svc (modelType info) md)"
    using b by (simp add: info)
  show "estimatedCost info = Some (estimateCost (modelConfig info) score md)"
    by (simp add: info)
qed

text \<open>The router fails only for want of a candidate: with a candidate of the chosen
  type it returns a decision.\<close>

lemma selectModelByComplexity_total:
  assumes "getAvailableProviders svc (chosenModelType (routingStrategy svc) score) md \<noteq> []"
  shows "\<exists>info. selectModelByComplexity svc score factors md = Inr info"
proof -
  obtain best where "selectBestProvider svc
      (getAvailableProviders svc (chosenModelType (routingStrategy svc) score) md) score md
        = Some best"
    using selectBestProvider_mem [OF assms] by blast
  then show ?thesis using assms by (simp add: selectModelByComplexity_def Let_def)
qed

lemma estimateCost_le_max:
  "estimateCost config score md \<le> orDefault (maxCostPerQuery config) (dbl 0.1)"
  by (simp add: estimateCost_def Let_def)

lemma recordModelUseStart_simps:
  "modelProviders (recordModelUseStart svc p) = modelProviders svc"
  "routingStrategy (recordModelUseStart svc p) = routingStrategy svc"
  "activeConnections (recordModelUseStart svc p) =
     (activeConnections svc)(p \<mapsto> orDefault (activeConnections svc p) 0 + 1)"
  by (simp_all add: recordModelUseStart_def Let_def)

text \<open>A release after an admission restores the count of the provider.\<close>

lemma recordModelUseEnd_after_start:
  "activeConnections (recordModelUseEnd (recordModelUseStart svc p) p st) p =
     Some (orDefault (activeConnections svc p) 0)"
  by (cases st) (simp_all add: recordModelUseEnd_def recordModelUseStart_def Let_def orDefault_def)

text \<open>The decisions of the cost control and of the backup search name candidates
  too.\<close>

lemma applyCostControlStrategy_candidate:
  assumes "applyCostControlStrategy svc info md = Inr final"
      and "(provider info, modelConfig info) \<in> set (getAvailableProviders svc (modelType info) md)"
  shows "(provider final, modelConfig final) \<in>
           set (getAvailableProviders svc (modelType final) md)"
proof (cases "final = info")
  case True
  then show ?thesis using assms(2) by simp
next
  case False
  then obtain ft best where ft: "fallbackTypes (modelType info) = Some ft"
    and ne: "getAvailableProviders svc ft md \<noteq> []"
    and sel: "selectBestProvider svc (getAvailableProviders svc ft md) (1 / 2) md = Some best"
    and fin: "provider final = fst best" "modelType final = ft" "modelConfig final = snd best"
    using assms(1)
    by (auto simp: applyCostControlStrategy_def Let_def
        split: if_splits option.splits)
  obtain best' where "selectBestProvider svc (getAvailableProviders svc ft md) (1 / 2) md = Some best'"
    and "best' \<in> set (getAvailableProviders svc ft md)"
    using selectBestProvider_mem [OF ne] by blast
  then have "best \<in> set (getAvailableProviders svc ft md)" using sel by simp
  then show ?thesis by (simp add: fin)
qed

lemma getBackupModel_candidate:
  "getBackupModel svc primary mt md = Inr (Some b) \<Longrightarrow>
     (provider b, modelConfig b) \<in> set (getAvailableProviders svc (modelType b) md) \<and>
     provider b \<noteq> primary"
proof (induction svc primary mt md rule: getBackupModel.induct)
  case (1 svc primary mt md)
  let ?av = "filter (\<lambda>p. fst p \<noteq> primary) (getAvailableProviders svc mt md)"
  show ?case
  proof (cases "?av = []")
    case True
    then show ?thesis
      using "1.prems" "1.IH"
      by (simp add: getBackupModel.simps [of svc primary mt md] split: option.splits)
  next
    case False
    obtain best where s: "selectBestProvider svc ?av (1 / 2) md = Some best" and m: "best \<in> set ?av"
      using selectBestProvider_mem [OF False] by blast
    have b: "provider b = fst best" "modelConfig b = snd best" "modelType b = mt"
      using "1.prems" False s
      by (auto simp: getBackupModel.simps [of svc primary mt md])
    show ?thesis using m by (simp add: b)
  qed
qed

text \<open>A candidate has fewer calls in flight than its limit.\<close>

lemma getAvailableProviders_below_limit:
  "(name, config) \<in> set (getAvailableProviders svc mt md) \<Longrightarrow>
     (name, config) \<in> set (modelProviders svc) \<and>
     orDefault (activeConnections svc name) 0 < orDefault (maxConcurrentQueries config) 10"
  by (auto simp: getAvailableProviders_def Let_def)

subsection \<open>Evaluation on the test configuration\<close>

lemma testService_simps:
  "modelProviders testService = testProviders"
  "routingStrategy testService = testStrategy"
  "activeConnections testService = Map.empty"
  "modelStats testService = Map.empty"
  by (simp_all add: testService_def)

text \<open>The candidates of a type in any service that has the test providers.\<close>

lemma getAvailableProviders_test:
  assumes "modelProviders svc = testProviders"
  shows "getAvailableProviders svc mt md =
     (if mt = Remote \<and> orDefault (activeConnections svc ''openai'') 0 < 10
      then [(''openai'', openaiConfig)] else []) @
     (if (mt = Hybrid \<or> mt = Remote) \<and> orDefault (activeConnections svc ''anthropic'') 0 < 5
      then [(''anthropic'', anthropicConfig)] else []) @
     (if mt = Local \<and> orDefault (activeConnections svc ''local'') 0 < 20
      then [(''local'', localConfig)] else [])"
  by (cases mt) (simp_all add: getAvailableProviders_def assms testProviders_def openaiConfig_def
      anthropicConfig_def localConfig_def orDefault_def [of "Some _"])

lemma words_testQuery: "words testQuery = [testQuery]"
  by (simp add: words_def jsSplit_def testQuery_def isWhiteSpace_def)

lemma sentences_testQuery: "sentences testQuery = [testQuery]"
  by (simp add: sentences_def jsSplit_def testQuery_def isSentenceEnd_def isWhiteSpace_def
      jsTrim_def)

lemma score_testQuery:
  "complexityScore (evaluateQueryComplexity testQuery) =
     5818650718562681 / 18014398509481984"
proof -
  have l: "length testQuery = 13" by (simp add: testQuery_def)
  have v: "vocabularyComplexity testQuery = 4548635623644201 / 9007199254740992"
    by (simp add: vocabularyComplexity_def avgWordLength_def wordCount_def words_testQuery l
        dbl_eval)
  have g: "grammarComplexity testQuery = 3602879701896397 / 72057594037927936"
    by (simp add: grammarComplexity_def avgSentenceLength_def sentenceCount_def wordCount_def
        words_testQuery sentences_testQuery dbl_eval)
  show ?thesis
    by (simp add: evaluateQueryComplexity_def v g dbl_eval)
qed

lemma select_testQuery:
  "selectModelByComplexity testService (complexityScore (evaluateQueryComplexity testQuery))
     fs testMetadata = Inr anthropicInfo"
proof -
  have t: "chosenModelType testStrategy (5818650718562681 / 18014398509481984) = Hybrid"
    by (simp add: chosenModelType_def testStrategy_def dbl_literals)
  show ?thesis
    by (simp add: selectModelByComplexity_def Let_def testService_simps score_testQuery t
        getAvailableProviders_test selectBestProvider_def orDefault_simps anthropicInfo_def)
qed

lemma costControl_testQuery:
  "applyCostControlStrategy testService anthropicInfo testMetadata = Inr anthropicInfo"
  by (simp add: applyCostControlStrategy_def Let_def testMetadata_def anthropicInfo_def)

lemma backup_testQuery:
  "getBackupModel (recordModelUseStart testService ''anthropic'') ''anthropic'' Hybrid
     testMetadata = Inr (Some localBackup)"
  by (simp add: getBackupModel.simps Let_def getAvailableProviders_test
      recordModelUseStart_simps testService_simps selectBestProvider_def orDefault_simps
      localBackup_def)

lemma info_simps:
  "provider anthropicInfo = ''anthropic''" "modelType anthropicInfo = Hybrid"
  "provider localBackup = ''local''"
  by (simp_all add: anthropicInfo_def localBackup_def)

subsection \<open>C1: fallback on call failure\<close>

text \<open>A dispatch never answers with a result once the primary call has failed: either
  no backup is found, or the backup call fails, or it succeeds and the assignment to the
  constant \<open>finalModelInfo\<close> throws.\<close>

lemma processQuery_primary_failure:
  assumes "selectModelByComplexity (router gw)
             (complexityScore (evaluateQueryComplexity (query request)))
             (complexityFactors (evaluateQueryComplexity (query request))) md = Inr info"
      and "applyCostControlStrategy (router gw) info md = Inr final"
      and "callModel (length (calls gw)) (provider final) = Inl err"
  shows "\<exists>e. fst (processQuery callModel elapsed (Inr (request, md)) gw) = Failure e"
  using assms by (simp add: processQuery_def Let_def split: sum.splits option.splits)

text \<open>
  Claim C1: when the primary adapter call fails and the router finds a backup provider,
  the dispatcher admits the backup, calls its adapter once, and the dispatch completes
  with a successful reply carrying the backup's text; with a primary that throws once
  and a backup that succeeds there is one successful reply after exactly two adapter
  calls.

  On the code the claim fails. In the scenario of the fallback test (the test
  configuration, the first adapter call throws, the second succeeds) the dispatcher
  admits \<open>anthropic\<close>, calls it, selects \<open>local\<close> as backup, admits it and calls it:
  two adapter calls, the second returning the backup response. The reply is the
  \<open>TypeError\<close> raised by the assignment to \<open>finalModelInfo\<close>, not a result.
\<close>

theorem processQuery_fallback_replies_error:
  "failOnce 0 ''anthropic'' = Inl AdapterFailure \<and>
   failOnce 1 ''local'' = Inr (backupResponse ''local'') \<and>
   processQuery failOnce elapsed (Inr (testRequest, testMetadata)) testGateway =
     (Failure TypeError,
      \<lparr> router = recordModelUseStart (recordModelUseStart testService ''anthropic'') ''local'',
        calls = [''anthropic'', ''local''] \<rparr>)"
  by (simp add: processQuery_def Let_def testRequest_def select_testQuery
      costControl_testQuery testGateway_def info_simps backup_testQuery failOnce_def)

subsection \<open>C2: admissions and releases\<close>

text \<open>When the primary call succeeds, the dispatch answers with the primary's response
  and the admission is released: the provider's count is what it was before.\<close>

lemma processQuery_primary_success:
  assumes "selectModelByComplexity (router gw)
             (complexityScore (evaluateQueryComplexity (query request)))
             (complexityFactors (evaluateQueryComplexity (query request))) md = Inr info"
      and "applyCostControlStrategy (router gw) info md = Inr final"
      and "callModel (length (calls gw)) (provider final) = Inr resp"
  shows "\<exists>r. fst (processQuery callModel elapsed (Inr (request, md)) gw) = Success r \<and>
             model_used r = provider final \<and> response r = responseText resp"
    and "activeConnections
           (router (snd (processQuery callModel elapsed (Inr (request, md)) gw)))
           (provider final) =
         Some (orDefault (activeConnections (router gw) (provider final)) 0)"
    and "calls (snd (processQuery callModel elapsed (Inr (request, md)) gw)) =
           calls gw @ [provider final]"
  using assms by (simp_all add: processQuery_def Let_def recordModelUseEnd_after_start)

lemma getBackupModel_other:
  "getBackupModel svc primary mt md = Inr (Some b) \<Longrightarrow> provider b \<noteq> primary"
proof (induction svc primary mt md rule: getBackupModel.induct)
  case (1 svc primary mt md)
  let ?av = "filter (\<lambda>p. fst p \<noteq> primary) (getAvailableProviders svc mt md)"
  show ?case
  proof (cases "?av = []")
    case True
    then show ?thesis
      using "1.prems" "1.IH"
      by (simp add: getBackupModel.simps [of svc primary mt md] split: option.splits)
  next
    case False
    obtain best where s: "selectBestProvider svc ?av (1 / 2) md = Some best" and m: "best \<in> set ?av"
      using selectBestProvider_mem [OF False] by blast
    have "fst best \<noteq> primary" using m by simp
    moreover have "provider b = fst best"
      using "1.prems" False s
      by (auto simp: getBackupModel.simps [of svc primary mt md])
    ultimately show ?thesis by simp
  qed
qed

text \<open>Whenever the primary call fails, the dispatch ends with the primary provider's
  count one above its value before the dispatch.\<close>

lemma processQuery_primary_failure_keeps_admission:
  assumes "selectModelByComplexity (router gw)
             (complexityScore (evaluateQueryComplexity (query request)))
             (complexityFactors (evaluateQueryComplexity (query request))) md = Inr info"
      and "applyCostControlStrategy (router gw) info md = Inr final"
      and "callModel (length (calls gw)) (provider final) = Inl err"
  shows "activeConnections
           (router (snd (processQuery callModel elapsed (Inr (request, md)) gw)))
           (provider final) =
         Some (orDefault (activeConnections (router gw) (provider final)) 0 + 1)"
proof -
  let ?svc1 = "recordModelUseStart (router gw) (provider final)"
  have c: "activeConnections ?svc1 (provider final) =
      Some (orDefault (activeConnections (router gw) (provider final)) 0 + 1)"
    by (simp add: recordModelUseStart_simps)
  show ?thesis
  proof (cases "getBackupModel ?svc1 (provider final) (modelType final) md")
    case (Inl e)
    then show ?thesis using assms c by (simp add: processQuery_def Let_def)
  next
    case (Inr ob)
    show ?thesis
    proof (cases ob)
      case None
      then show ?thesis using assms c Inr by (simp add: processQuery_def Let_def)
    next
      case (Some b)
      have "provider b \<noteq> provider final"
        using getBackupModel_other Inr Some by blast
      then have "activeConnections (recordModelUseStart ?svc1 (provider b)) (provider final) =
          Some (orDefault (activeConnections (router gw) (provider final)) 0 + 1)"
        using c by (simp add: recordModelUseStart_simps(3) [of ?svc1])
      then show ?thesis using assms Inr Some
        by (simp add: processQuery_def Let_def split: sum.splits)
    qed
  qed
qed

text \<open>
  Claim C2: on every exit path of a dispatch (success, adapter failure reported as an
  error, fallback with a backup admitted too) each admission \<open>recordModelUseStart\<close> is
  followed by exactly one release \<open>recordModelUseEnd\<close> on the same provider, so the
  in-flight count is decremented once per admission.

  On the code the claim fails: \<open>recordModelUseEnd\<close> is called on the success path
  only. In the scenario of the test in which every adapter call throws, the dispatch
  admits \<open>anthropic\<close> and then the backup \<open>local\<close>, replies with the error, and
  leaves both counts at one although nothing is in flight any more.
\<close>

theorem processQuery_failure_keeps_admissions:
  "activeConnections (router testGateway) ''anthropic'' = None \<and>
   activeConnections (router testGateway) ''local'' = None \<and>
   fst (processQuery alwaysFail elapsed (Inr (testRequest, testMetadata)) testGateway) =
     Failure AdapterFailure \<and>
   activeConnections
     (router (snd (processQuery alwaysFail elapsed (Inr (testRequest, testMetadata)) testGateway)))
     ''anthropic'' = Some 1 \<and>
   activeConnections
     (router (snd (processQuery alwaysFail elapsed (Inr (testRequest, testMetadata)) testGateway)))
     ''local'' = Some 1"
proof -
  have r: "processQuery alwaysFail elapsed (Inr (testRequest, testMetadata)) testGateway =
     (Failure AdapterFailure,
      \<lparr> router = recordModelUseStart (recordModelUseStart testService ''anthropic'') ''local'',
        calls = [''anthropic'', ''local''] \<rparr>)"
    by (simp add: processQuery_def Let_def testRequest_def select_testQuery
        costControl_testQuery testGateway_def info_simps backup_testQuery alwaysFail_def)
  have g: "router testGateway = testService"
    by (simp add: testGateway_def)
  show ?thesis
    by (simp add: r g recordModelUseStart_simps testService_simps orDefault_simps)
qed


subsection \<open>C3: admission at the concurrency limit\<close>

text \<open>An admission of a candidate keeps every provider within its limit, and so does a
  release. The names of the provider table are the keys of an object, hence distinct.\<close>

lemma recordModelUseStart_withinLimits:
  assumes "(name, config) \<in> set (getAvailableProviders svc mt md)"
      and "distinct (map fst (modelProviders svc))"
      and "withinLimits svc"
  shows "withinLimits (recordModelUseStart svc name)"
proof -
  have below: "orDefault (activeConnections svc name) 0 < orDefault (maxConcurrentQueries config) 10"
    and mem: "(name, config) \<in> set (modelProviders svc)"
    using getAvailableProviders_below_limit [OF assms(1)] by simp_all
  have "orDefault (activeConnections (recordModelUseStart svc name) n) 0
          \<le> orDefault (maxConcurrentQueries c) 10"
    if nc: "(n, c) \<in> set (modelProviders svc)" for n c
  proof (cases "n = name")
    case True
    then have "c = config"
      using nc mem assms(2) by (metis eq_key_imp_eq_value)
    then show ?thesis
      using below True by (simp add: recordModelUseStart_simps orDefault_def)
  next
    case False
    have "orDefault (activeConnections svc n) 0 \<le> orDefault (maxConcurrentQueries c) 10"
      using assms(3) nc by (auto simp: withinLimits_def list_all_iff)
    then show ?thesis
      using False by (simp add: recordModelUseStart_simps)
  qed
  then show ?thesis
    by (auto simp: withinLimits_def list_all_iff recordModelUseStart_simps)
qed

lemma recordModelUseEnd_withinLimits:
  assumes "withinLimits svc"
  shows "withinLimits (recordModelUseEnd svc name st)"
proof -
  have p: "modelProviders (recordModelUseEnd svc name st) = modelProviders svc"
    by (cases st) (simp_all add: recordModelUseEnd_def Let_def)
  have a: "activeConnections (recordModelUseEnd svc name st) =
      (activeConnections svc)(name \<mapsto> nat (max 0 (int (orDefault (activeConnections svc name) 1) - 1)))"
    by (cases st) (simp_all add: recordModelUseEnd_def Let_def)
  have le: "orDefault (Some (nat (max 0 (int (orDefault (activeConnections svc name) 1) - 1)))) 0
      \<le> orDefault (activeConnections svc name) 0"
    by (cases "activeConnections svc name") (auto simp: orDefault_def)
  have "orDefault (activeConnections (recordModelUseEnd svc name st) n) 0
          \<le> orDefault (maxConcurrentQueries c) 10"
    if nc: "(n, c) \<in> set (modelProviders svc)" for n c
  proof -
    have w: "orDefault (activeConnections svc n) 0 \<le> orDefault (maxConcurrentQueries c) 10"
      using assms nc by (auto simp: withinLimits_def list_all_iff)
    show ?thesis
    proof (cases "n = name")
      case True
      then show ?thesis using w le by (simp add: a)
    next
      case False
      then show ?thesis using w by (simp add: a)
    qed
  qed
  then show ?thesis
    by (auto simp: withinLimits_def list_all_iff p)
qed

text \<open>What a dispatch does to the router: nothing, or it admits the provider of the
  decision left by the cost control (downgraded or not), which is a candidate of the
  filter on the router as the dispatch found it; then it releases that provider (the
  call succeeded), or stops there (no backup), or admits a backup, which is a candidate
  of the filter on the router as the first admission left it.\<close>

lemma processQuery_admits_candidates:
  fixes callModel elapsed pre gw
  defines "gw' \<equiv> snd (processQuery callModel elapsed pre gw)"
  shows "(router gw' = router gw \<and> calls gw' = calls gw) \<or>
     (\<exists>request md info final.
        pre = Inr (request, md) \<and>
        selectModelByComplexity (router gw)
          (complexityScore (evaluateQueryComplexity (query request)))
          (complexityFactors (evaluateQueryComplexity (query request))) md = Inr info \<and>
        applyCostControlStrategy (router gw) info md = Inr final \<and>
        (provider final, modelConfig final) \<in>
           set (getAvailableProviders (router gw) (modelType final) md) \<and>
        ((\<exists>st. router gw' =
                 recordModelUseEnd (recordModelUseStart (router gw) (provider final))
                   (provider final) (Some st) \<and>
               calls gw' = calls gw @ [provider final]) \<or>
         (router gw' = recordModelUseStart (router gw) (provider final) \<and>
          calls gw' = calls gw @ [provider final]) \<or>
         (\<exists>b :: modelInfo.
               getBackupModel (recordModelUseStart (router gw) (provider final))
                 (provider final) (modelType final) md = Inr (Some b) \<and>
               (provider b, modelConfig b) \<in>
                  set (getAvailableProviders (recordModelUseStart (router gw) (provider final))
                         (modelType b) md) \<and>
               router gw' =
                 recordModelUseStart (recordModelUseStart (router gw) (provider final))
                   (provider b) \<and>
               calls gw' = calls gw @ [provider final, provider b])))"
proof (cases pre)
  case (Inl e)
  then show ?thesis by (simp add: gw'_def processQuery_def)
next
  case (Inr p)
  obtain request md where p: "p = (request, md)" by (cases p)
  let ?score = "complexityScore (evaluateQueryComplexity (query request))"
  let ?factors = "complexityFactors (evaluateQueryComplexity (query request))"
  show ?thesis
  proof (cases "selectModelByComplexity (router gw) ?score ?factors md")
    case (Inl e)
    then show ?thesis using Inr p by (simp add: gw'_def processQuery_def Let_def)
  next
    case sel: (Inr info)
    show ?thesis
    proof (cases "applyCostControlStrategy (router gw) info md")
      case (Inl e)
      then show ?thesis using Inr p sel by (simp add: gw'_def processQuery_def Let_def)
    next
      case cc: (Inr final)
      let ?svc1 = "recordModelUseStart (router gw) (provider final)"
      have "(provider info, modelConfig info) \<in>
              set (getAvailableProviders (router gw) (modelType info) md)"
        using selectModelByComplexity_Inr(2) [OF sel] .
      then have cand: "(provider final, modelConfig final) \<in>
              set (getAvailableProviders (router gw) (modelType final) md)"
        using applyCostControlStrategy_candidate [OF cc] by simp
      have tail: "(\<exists>st. router gw' = recordModelUseEnd ?svc1 (provider final) (Some st) \<and>
               calls gw' = calls gw @ [provider final]) \<or>
         (router gw' = ?svc1 \<and> calls gw' = calls gw @ [provider final]) \<or>
         (\<exists>b :: modelInfo.
               getBackupModel ?svc1 (provider final) (modelType final) md = Inr (Some b) \<and>
               (provider b, modelConfig b) \<in> set (getAvailableProviders ?svc1 (modelType b) md) \<and>
               router gw' = recordModelUseStart ?svc1 (provider b) \<and>
               calls gw' = calls gw @ [provider final, provider b])"
      proof (cases "callModel (length (calls gw)) (provider final)")
        case ok: (Inr resp)
        have "router gw' = recordModelUseEnd ?svc1 (provider final)
                 (Some \<lparr> responseTime = elapsed, success = True,
                    useCostEfficiency =
                      fdiv 1 (orDefault (costOr (cost resp) (estimatedCost final))
                                (dbl 0.001)) \<rparr>) \<and>
              calls gw' = calls gw @ [provider final]"
          using Inr p sel cc ok by (simp add: gw'_def processQuery_def Let_def)
        then show ?thesis by (intro disjI1 exI) simp
      next
        case failed: (Inl err)
        show ?thesis
        proof (cases "getBackupModel ?svc1 (provider final) (modelType final) md")
          case (Inl e)
          then show ?thesis
            using Inr p sel cc failed by (simp add: gw'_def processQuery_def Let_def)
        next
          case bk: (Inr ob)
          show ?thesis
          proof (cases ob)
            case None
            then show ?thesis
              using Inr p sel cc failed bk by (simp add: gw'_def processQuery_def Let_def)
          next
            case (Some b)
            have cb: "(provider b, modelConfig b) \<in>
                        set (getAvailableProviders ?svc1 (modelType b) md)"
              using getBackupModel_candidate bk Some by blast
            have "router gw' = recordModelUseStart ?svc1 (provider b) \<and>
                  calls gw' = calls gw @ [provider final, provider b]"
              using Inr p sel cc failed bk Some
              by (simp add: gw'_def processQuery_def Let_def split: sum.splits)
            then have "\<exists>b :: modelInfo.
                         getBackupModel ?svc1 (provider final) (modelType final) md =
                           Inr (Some b) \<and>
                         (provider b, modelConfig b) \<in>
                           set (getAvailableProviders ?svc1 (modelType b) md) \<and>
                         router gw' = recordModelUseStart ?svc1 (provider b) \<and>
                         calls gw' = calls gw @ [provider final, provider b]"
              using cb bk Some by (intro exI [of _ b]) simp
            then show ?thesis by (intro disjI2)
          qed
        qed
      qed
      show ?thesis using Inr p sel cc cand tail by blast
    qed
  qed
qed

text \<open>
  Claim C3, as stated: \<open>recordModelUseStart\<close> verifies that the in-flight count is
  below the provider's limit before incrementing and raises MODEL_UNAVAILABLE at the
  limit; with the count one below the limit one more admission succeeds and the next
  one fails.

  The claim fails on the code: with \<open>anthropic\<close> at its limit of five in flight, the
  admission goes through and the count becomes six.
\<close>

theorem recordModelUseStart_at_limit_counterexample:
  "activeConnections atLimitService ''anthropic'' = Some 5 \<and>
   maxConcurrentQueries anthropicConfig = Some 5 \<and>
   (''anthropic'', anthropicConfig) \<in> set (modelProviders atLimitService) \<and>
   activeConnections (recordModelUseStart atLimitService ''anthropic'') ''anthropic'' = Some 6"
  by (simp add: atLimitService_def recordModelUseStart_simps testService_def testProviders_def
      anthropicConfig_def orDefault_def)

text \<open>
  Claim C3, amended. \<open>recordModelUseStart\<close> increments the provider's count
  unconditionally and raises nothing; the limit is checked by the candidate filter
  \<open>getAvailableProviders\<close> alone.

  \<^item> A provider that is configured, not offline, of the requested type and one below
    its limit is a candidate; after one admission its count equals the limit and it is
    no candidate any more; a further admission would still increment the count, past
    the limit.

  \<^item> A dispatch \<open>processQuery\<close>, taken alone, admits candidates only. Either it leaves
    the router and the list of calls as they were, or the router has returned a
    decision, the cost control has returned the final decision (downgraded or not),
    and the provider of the final decision is a candidate of the filter on the router
    as the dispatch found it. That provider is admitted and called, and then either it
    is released (the call succeeded), or nothing more happens (no backup was found),
    or a backup is admitted and called, which is a candidate of the filter on the
    router as the first admission left it.

  \<^item> Hence, when the names of the provider table are distinct and no provider is above
    its limit before a dispatch, none is above its limit after it.
\<close>

theorem recordModelUseStart_unconditional:
  fixes callModel elapsed pre gw
  defines "gw' \<equiv> snd (processQuery callModel elapsed pre gw)"
  assumes "(name, config) \<in> set (modelProviders svc)"
      and "status config \<noteq> Offline"
      and "case supportedModelTypes config of Some ts \<Rightarrow> mt \<in> set ts | None \<Rightarrow> True"
      and "orDefault (activeConnections svc name) 0 + 1 = orDefault (maxConcurrentQueries config) 10"
      and "distinct (map fst (modelProviders (router gw)))"
      and "withinLimits (router gw)"
  shows "(\<forall>s n. activeConnections (recordModelUseStart s n) n =
                  Some (orDefault (activeConnections s n) 0 + 1)) \<and>
         (name, config) \<in> set (getAvailableProviders svc mt md) \<and>
         activeConnections (recordModelUseStart svc name) name =
           Some (orDefault (maxConcurrentQueries config) 10) \<and>
         (name, config) \<notin> set (getAvailableProviders (recordModelUseStart svc name) mt md) \<and>
         activeConnections (recordModelUseStart (recordModelUseStart svc name) name) name =
           Some (orDefault (maxConcurrentQueries config) 10 + 1) \<and>
         ((router gw' = router gw \<and> calls gw' = calls gw) \<or>
          (\<exists>request rmd info final.
             pre = Inr (request, rmd) \<and>
             selectModelByComplexity (router gw)
               (complexityScore (evaluateQueryComplexity (query request)))
               (complexityFactors (evaluateQueryComplexity (query request))) rmd = Inr info \<and>
             applyCostControlStrategy (router gw) info rmd = Inr final \<and>
             (provider final, modelConfig final) \<in>
                set (getAvailableProviders (router gw) (modelType final) rmd) \<and>
             ((\<exists>st. router gw' =
                      recordModelUseEnd (recordModelUseStart (router gw) (provider final))
                        (provider final) (Some st) \<and>
                    calls gw' = calls gw @ [provider final]) \<or>
              (router gw' = recordModelUseStart (router gw) (provider final) \<and>
               calls gw' = calls gw @ [provider final]) \<or>
              (\<exists>b :: modelInfo.
                    getBackupModel (recordModelUseStart (router gw) (provider final))
                      (provider final) (modelType final) rmd = Inr (Some b) \<and>
                    (provider b, modelConfig b) \<in>
                       set (getAvailableProviders
                              (recordModelUseStart (router gw) (provider final))
                              (modelType b) rmd) \<and>
                    router gw' =
                      recordModelUseStart (recordModelUseStart (router gw) (provider final))
                        (provider b) \<and>
                    calls gw' = calls gw @ [provider final, provider b])))) \<and>
         withinLimits (router gw')"
proof -
  let ?cap = "orDefault (maxConcurrentQueries config) 10"
  have inc: "\<forall>s n. activeConnections (recordModelUseStart s n) n =
                  Some (orDefault (activeConnections s n) 0 + 1)"
    by (simp add: recordModelUseStart_simps)
  have cap: "0 < ?cap"
    by (simp add: orDefault_nat_pos)
  have a: "(name, config) \<in> set (getAvailableProviders svc mt md)"
    using assms(2-5) by (simp add: getAvailableProviders_def Let_def)
  have b: "activeConnections (recordModelUseStart svc name) name = Some ?cap"
    using assms(5) by (simp add: recordModelUseStart_simps)
  have b': "orDefault (activeConnections (recordModelUseStart svc name) name) 0 = ?cap"
    using cap unfolding b by (simp add: orDefault_def)
  have c: "(name, config) \<notin> set (getAvailableProviders (recordModelUseStart svc name) mt md)"
    by (simp add: getAvailableProviders_def Let_def b')
  have d: "activeConnections (recordModelUseStart (recordModelUseStart svc name) name) name =
           Some (?cap + 1)"
    using b' by (simp add: recordModelUseStart_simps(3) [of "recordModelUseStart svc name"])
  note e = processQuery_admits_candidates [of callModel elapsed pre gw, folded gw'_def]
  have f: "withinLimits (router gw')"
    using e
  proof (elim disjE exE conjE)
    assume "router gw' = router gw"
    then show ?thesis using assms(7) by simp
  next
    fix request rmd info and final :: modelInfo and st
    assume cand: "(provider final, modelConfig final) \<in>
                    set (getAvailableProviders (router gw) (modelType final) rmd)"
      and r: "router gw' = recordModelUseEnd (recordModelUseStart (router gw) (provider final))
                (provider final) (Some st)"
    show ?thesis
      unfolding r
      by (rule recordModelUseEnd_withinLimits)
         (rule recordModelUseStart_withinLimits [OF cand assms(6) assms(7)])
  next
    fix request rmd info and final :: modelInfo
    assume cand: "(provider final, modelConfig final) \<in>
                    set (getAvailableProviders (router gw) (modelType final) rmd)"
      and r: "router gw' = recordModelUseStart (router gw) (provider final)"
    show ?thesis
      unfolding r by (rule recordModelUseStart_withinLimits [OF cand assms(6) assms(7)])
  next
    fix request rmd info and final :: modelInfo and b :: modelInfo
    assume cand: "(provider final, modelConfig final) \<in>
                    set (getAvailableProviders (router gw) (modelType final) rmd)"
      and cb: "(provider b, modelConfig b) \<in>
                 set (getAvailableProviders (recordModelUseStart (router gw) (provider final))
                        (modelType b) rmd)"
      and r: "router gw' = recordModelUseStart
                 (recordModelUseStart (router gw) (provider final)) (provider b)"
    have w1: "withinLimits (recordModelUseStart (router gw) (provider final))"
      by (rule recordModelUseStart_withinLimits [OF cand assms(6) assms(7)])
    have d1: "distinct (map fst (modelProviders (recordModelUseStart (router gw) (provider final))))"
      using assms(6) by (simp add: recordModelUseStart_simps)
    show ?thesis
      unfolding r by (rule recordModelUseStart_withinLimits [OF cb d1 w1])
  qed
  show ?thesis using inc a b c d e f by blast
qed

theorem recordModelUseStart_unconditional_witness:
  "distinct (map fst (modelProviders (router testGateway))) \<and>
   withinLimits (router testGateway) \<and>
   (''anthropic'', anthropicConfig) \<in> set (getAvailableProviders nearLimitService Hybrid testMetadata) \<and>
   activeConnections (recordModelUseStart nearLimitService ''anthropic'') ''anthropic'' = Some 5 \<and>
   (''anthropic'', anthropicConfig) \<notin>
      set (getAvailableProviders (recordModelUseStart nearLimitService ''anthropic'') Hybrid
             testMetadata) \<and>
   activeConnections
     (recordModelUseStart (recordModelUseStart nearLimitService ''anthropic'') ''anthropic'')
     ''anthropic'' = Some 6 \<and>
   withinLimits
     (router (snd (processQuery failOnce 0 (Inr (testRequest, testMetadata)) testGateway)))"
proof -
  have h1: "(''anthropic'', anthropicConfig) \<in> set (modelProviders nearLimitService)"
    by (simp add: nearLimitService_def testService_def testProviders_def)
  have h2: "status anthropicConfig \<noteq> Offline"
    by (simp add: anthropicConfig_def)
  have h3: "case supportedModelTypes anthropicConfig of
              Some ts \<Rightarrow> Hybrid \<in> set ts | None \<Rightarrow> True"
    by (simp add: anthropicConfig_def)
  have h4: "orDefault (activeConnections nearLimitService ''anthropic'') 0 + 1 =
            orDefault (maxConcurrentQueries anthropicConfig) 10"
    by (simp add: nearLimitService_def anthropicConfig_def orDefault_def)
  have h5: "distinct (map fst (modelProviders (router testGateway)))"
    by (simp add: testGateway_def testService_def testProviders_def)
  have h6: "withinLimits (router testGateway)"
    by (simp add: withinLimits_def testGateway_def testService_def testProviders_def
        orDefault_def)
  have cap: "orDefault (maxConcurrentQueries anthropicConfig) 10 = 5"
    by (simp add: anthropicConfig_def orDefault_def)
  have six: "(5::nat) + 1 = 6" by simp
  show ?thesis
    using h5 h6
      recordModelUseStart_unconditional [where callModel = failOnce and elapsed = 0
        and pre = "Inr (testRequest, testMetadata)" and md = testMetadata,
        OF h1 h2 h3 h4 h5 h6]
    unfolding cap six by blast
qed

subsection \<open>C4: cost-control downgrade\<close>

lemma estimateCost_lowBudget:
  "estimateCost openaiConfig (dbl (9 / 10)) lowBudgetMetadata =
     5563999181232643 / 144115188075855872"
  "estimateCost anthropicConfig (1 / 2) lowBudgetMetadata =
     3294473199414065 / 72057594037927936"
  "estimateCost localConfig (1 / 2) lowBudgetMetadata =
     7028209492083339 / 4611686018427387904"
  unfolding estimateCost_def Let_def lowBudgetMetadata_def openaiConfig_def
    anthropicConfig_def localConfig_def
  by (simp_all add: orDefault_def dbl_eval)

text \<open>With nothing in flight and no statistics, two providers without a
  \<open>costEfficiency\<close> have the same score.\<close>

lemma providerScore_testService:
  "providerScore testService (n, c) =
     fadd (fadd (fmul 1 (dbl 0.4)) (fmul (orDefault (costEfficiency c) 0.5) (dbl 0.3)))
          (fmul (fmul (dbl 0.95) (fdiv 1000 (fadd 500 100))) (dbl 0.3))"
proof -
  have "fsub 1 (fdiv 0 (real (orDefault (maxConcurrentQueries c) 10))) = 1"
    by (simp add: fsub_def fdiv_def dbl_simps)
  then show ?thesis
    by (simp add: providerScore_def Let_def testService_simps orDefault_simps)
qed

lemma select_lowBudget:
  "selectModelByComplexity testService (dbl (9 / 10)) fs lowBudgetMetadata = Inr openaiInfo"
proof -
  have t: "chosenModelType testStrategy (dbl (9 / 10)) = Remote"
    by (simp add: chosenModelType_def testStrategy_def dbl_literals)
  have s: "providerScore testService (''openai'', openaiConfig) =
           providerScore testService (''anthropic'', anthropicConfig)"
    by (simp add: providerScore_testService openaiConfig_def anthropicConfig_def)
  have b: "selectBestProvider testService
             [(''openai'', openaiConfig), (''anthropic'', anthropicConfig)] (dbl (9 / 10))
             lowBudgetMetadata = Some (''openai'', openaiConfig)"
    by (simp add: selectBestProvider_def s)
  show ?thesis
    by (simp add: selectModelByComplexity_def Let_def testService_simps t
        getAvailableProviders_test orDefault_simps b openaiInfo_def)
qed

text \<open>
  Claim C4: when the estimated cost exceeds the budget the router downgrades the model
  type along remote, hybrid, local, computing a fresh decision at score 0.5 on each
  type; the first decision within the budget is accepted and marked, and
  COST_LIMIT_EXCEEDED is raised only when the whole chain is exhausted.

  On the code the claim fails: \<open>applyCostControlStrategy\<close> tries the next lower type
  only. With the test configuration, a request of sixteen code units at score 0.9 and
  the budget 0.005, the remote decision (\<open>openai\<close>) and the hybrid candidate
  (\<open>anthropic\<close>) are over the budget and the function throws COST_LIMIT_EXCEEDED,
  although the local candidate is available and its cost at score 0.5 is within the
  budget.
\<close>

theorem applyCostControlStrategy_stops_after_one_step:
  "selectModelByComplexity testService (dbl (9 / 10)) [] lowBudgetMetadata = Inr openaiInfo \<and>
   applyCostControlStrategy testService openaiInfo lowBudgetMetadata =
     Inl (GatewayError COST_LIMIT_EXCEEDED) \<and>
   getAvailableProviders testService Local lowBudgetMetadata = [(''local'', localConfig)] \<and>
   numLe (estimateCost localConfig (1 / 2) lowBudgetMetadata) (Finite (dbl (5 / 1000)))"
proof -
  have b: "budget lowBudgetMetadata = Some (Finite (dbl (5 / 1000)))"
    by (simp add: lowBudgetMetadata_def)
  have i: "estimatedCost openaiInfo = Some (5563999181232643 / 144115188075855872)"
    "modelType openaiInfo = Remote"
    by (simp_all add: openaiInfo_def estimateCost_lowBudget)
  have a: "applyCostControlStrategy testService openaiInfo lowBudgetMetadata =
     Inl (GatewayError COST_LIMIT_EXCEEDED)"
    by (simp add: applyCostControlStrategy_def Let_def b i getAvailableProviders_test
        testService_simps orDefault_simps selectBestProvider_def estimateCost_lowBudget
        dbl_literals)
  have l: "getAvailableProviders testService Local lowBudgetMetadata = [(''local'', localConfig)]"
    by (simp add: getAvailableProviders_test testService_simps orDefault_simps)
  have c: "numLe (estimateCost localConfig (1 / 2) lowBudgetMetadata) (Finite (dbl (5 / 1000)))"
    by (simp add: estimateCost_lowBudget dbl_literals)
  show ?thesis
    using select_lowBudget [of "[]"] a l c by blast
qed

subsection \<open>C5: model type from the complexity score\<close>




subsection \<open>C6: the complexity score\<close>

lemma isWhiteSpace_letters:
  "isWhiteSpace 0x20 = True" "isWhiteSpace 0x61 = False" "isWhiteSpace 0x62 = False"
  "isWhiteSpace 0x63 = False" "isWhiteSpace 0x64 = False" "isWhiteSpace 0x65 = False"
  "isWhiteSpace 0x66 = False" "isWhiteSpace 0x67 = False" "isWhiteSpace 0x68 = False"
  by (simp_all add: isWhiteSpace_def)

lemma quantities_spacedAbc:
  "tokenCount spacedAbc = 1" "pieceCount spacedAbc = 3" "tokenLength spacedAbc = 3"
  "sentencePartCount spacedAbc = 1"
  by (simp_all add: tokenCount_def pieceCount_def tokenLength_def sentencePartCount_def
      spacedAbc_def isWhiteSpace_letters)

lemma scoreFormula_spacedAbc:
  "scoreFormula 3 3 (Suc 0) = 3566850904877433 / 36028797018963968"
  "scoreFormula (Suc 0) 3 (Suc 0) = 8142508126285857 / 72057594037927936"
  unfolding scoreFormula_def vocabularyFormula_def grammarFormula_def
  by (simp_all add: dbl_eval)

text \<open>
  Claim C6, as stated: for every non-empty query the evaluator used by the dispatch
  returns
  \<open>0.6 * (0.5 * min(W/100, 1) + 0.5 * min(avg_word_len/10, 1)) + 0.4 * min((W/S)/20, 1)\<close>,
  where \<open>W\<close> is the number of white-space separated tokens, \<open>avg_word_len\<close> their mean
  length and \<open>S\<close> the number of non-empty trimmed parts between runs of the sentence
  marks, at least 1; the score lies between 0 and 1.

  The claim fails on the code: the query \<open>" abc "\<close> has one token, of three letters,
  and one sentence part, so that the formula gives 0.113 (to the nearest double); the
  evaluator counts three words, the empty strings that \<open>split\<close> returns before the
  first and after the last white space included, and returns 0.099.
\<close>

theorem evaluateQueryComplexity_score_counterexample:
  "tokenCount spacedAbc = 1 \<and> tokenLength spacedAbc = 3 \<and> sentencePartCount spacedAbc = 1 \<and>
   claimedScore spacedAbc = 8142508126285857 / 72057594037927936 \<and>
   wordCount spacedAbc = 3 \<and>
   complexityScore (evaluateQueryComplexity spacedAbc) = 3566850904877433 / 36028797018963968 \<and>
   complexityScore (evaluateQueryComplexity spacedAbc) \<noteq> claimedScore spacedAbc"
proof -
  have c: "claimedScore spacedAbc = 8142508126285857 / 72057594037927936"
    by (simp add: claimedScore_def quantities_spacedAbc scoreFormula_spacedAbc)
  have w: "wordCount spacedAbc = 3"
    by (simp add: wordCount_pieceCount quantities_spacedAbc)
  have s: "complexityScore (evaluateQueryComplexity spacedAbc) =
      3566850904877433 / 36028797018963968"
    by (simp add: complexityScore_formula quantities_spacedAbc scoreFormula_spacedAbc)
  have d: "complexityScore (evaluateQueryComplexity spacedAbc) \<noteq> claimedScore spacedAbc"
    unfolding c s by simp
  show ?thesis using c w s d quantities_spacedAbc by blast
qed

text \<open>
  Claim C6, amended: for every query, the empty one included, the evaluator returns
  \<open>0.6 * (0.5 * min(W/100, 1) + 0.5 * min((L/W)/10, 1)) + 0.4 * min((W/S)/20, 1)\<close>,
  each operation rounded to the nearest double, where \<open>W\<close> is the number of pieces
  that \<open>split\<close> on runs of white space returns, that is the number of white-space
  separated tokens, plus one when the query is empty or starts with white space, plus
  one when a non-empty query ends with white space; \<open>L\<close> is the total length of the
  tokens; and \<open>S\<close> is the number of non-empty trimmed parts between runs of the
  sentence marks, at least 1. \<open>W\<close> is never zero and the score lies between 0 and 1.
  For a non-empty query that neither starts nor ends with white space, \<open>W\<close> is the
  number of tokens and the score is the one of the claim as stated.
\<close>

theorem evaluateQueryComplexity_score:
  "1 \<le> pieceCount q \<and>
   complexityScore (evaluateQueryComplexity q) =
     scoreFormula (pieceCount q) (tokenLength q) (max (sentencePartCount q) 1) \<and>
   0 \<le> complexityScore (evaluateQueryComplexity q) \<and>
   complexityScore (evaluateQueryComplexity q) \<le> 1 \<and>
   (q \<noteq> [] \<and> \<not> isWhiteSpace (hd q) \<and> \<not> isWhiteSpace (last q) \<longrightarrow>
      pieceCount q = tokenCount q \<and>
      complexityScore (evaluateQueryComplexity q) = claimedScore q)"
proof -
  have pos: "1 \<le> pieceCount q"
    using wordCount_pos [of q] by (simp add: wordCount_pieceCount)
  have eq: "complexityScore (evaluateQueryComplexity q) =
      scoreFormula (pieceCount q) (tokenLength q) (max (sentencePartCount q) 1)"
    by (rule complexityScore_formula)
  have bounds: "0 \<le> complexityScore (evaluateQueryComplexity q) \<and>
      complexityScore (evaluateQueryComplexity q) \<le> 1"
    unfolding eq by (rule scoreFormula_bounds)
  have same: "pieceCount q = tokenCount q"
    if "q \<noteq> []" "\<not> isWhiteSpace (hd q)" "\<not> isWhiteSpace (last q)"
    using that by (cases q) (simp_all add: pieceCount_def)
  have "complexityScore (evaluateQueryComplexity q) = claimedScore q"
    if "q \<noteq> []" "\<not> isWhiteSpace (hd q)" "\<not> isWhiteSpace (last q)"
    unfolding eq claimedScore_def same [OF that] by (rule refl)
  then show ?thesis using pos eq bounds same by blast
qed

lemma quantities_thirteenWords:
  "tokenCount thirteenWords = 13" "pieceCount thirteenWords = 13"
  "tokenLength thirteenWords = 13" "sentencePartCount thirteenWords = 1"
  by (simp_all add: tokenCount_def pieceCount_def tokenLength_def sentencePartCount_def
      thirteenWords_def isWhiteSpace_letters)

lemma scoreFormula_thirteenWords:
  "scoreFormula 13 13 (Suc 0) = 5926737109619573 / 18014398509481984"
  unfolding scoreFormula_def vocabularyFormula_def grammarFormula_def
  by (simp add: dbl_eval)

theorem evaluateQueryComplexity_score_witness:
  "thirteenWords \<noteq> [] \<and> \<not> isWhiteSpace (hd thirteenWords) \<and>
   \<not> isWhiteSpace (last thirteenWords) \<and>
   pieceCount thirteenWords = 13 \<and> tokenCount thirteenWords = 13 \<and>
   claimedScore thirteenWords = 5926737109619573 / 18014398509481984 \<and>
   complexityScore (evaluateQueryComplexity thirteenWords) =
     5926737109619573 / 18014398509481984"
proof -
  have h: "thirteenWords \<noteq> []" "\<not> isWhiteSpace (hd thirteenWords)"
    "\<not> isWhiteSpace (last thirteenWords)"
    by (simp_all add: thirteenWords_def isWhiteSpace_letters)
  have c: "claimedScore thirteenWords = 5926737109619573 / 18014398509481984"
    by (simp add: claimedScore_def quantities_thirteenWords scoreFormula_thirteenWords)
  show ?thesis
    using evaluateQueryComplexity_score [of thirteenWords] h c quantities_thirteenWords
    by simp
qed

subsection \<open>C7: the factor tags\<close>

lemma complexityFactors_formula:
  "complexityFactors (evaluateQueryComplexity q) =
     (if dbl 0.6 < vocabularyFormula (pieceCount q) (tokenLength q)
      then [factorVocabulary] else []) @
     (if dbl 0.6 < grammarFormula (pieceCount q) (max (sentencePartCount q) 1)
      then [factorGrammar] else []) @
     (if 100 < pieceCount q then [factorLength] else [])"
  by (simp add: evaluateQueryComplexity_def vocabularyComplexity_formula
      grammarComplexity_formula wordCount_pieceCount)

lemma formulas_thirteenWords:
  "vocabularyFormula 13 13 = 8286623314361713 / 72057594037927936"
  "grammarFormula 13 (Suc 0) = 5854679515581645 / 9007199254740992"
  unfolding vocabularyFormula_def grammarFormula_def
  by (simp_all add: dbl_eval)

text \<open>
  Claim C7, as stated: the factor list contains, in this order, the tag
  \<open>"high_vocabulary_complexity"\<close> iff the vocabulary complexity exceeds 0.6,
  \<open>"complex_grammar"\<close> iff the grammar complexity exceeds 0.6 and \<open>"long_query"\<close>
  iff there are more than 100 tokens, and is empty when none applies.

  The claim fails on the code: for a query of thirteen one-letter words the grammar
  complexity is 0.65, and the list holds the string the source pushes for it, not the
  tag \<open>"complex_grammar"\<close>.
\<close>

theorem complexityFactors_tag_counterexample:
  "dbl 0.6 < grammarComplexity thirteenWords \<and>
   complexityFactors (evaluateQueryComplexity thirteenWords) = [factorGrammar] \<and>
   asciiTag ''complex_grammar'' \<notin> set (complexityFactors (evaluateQueryComplexity thirteenWords))"
proof -
  have g: "grammarComplexity thirteenWords = 5854679515581645 / 9007199254740992"
    by (simp add: grammarComplexity_formula quantities_thirteenWords formulas_thirteenWords)
  have f: "complexityFactors (evaluateQueryComplexity thirteenWords) = [factorGrammar]"
    by (simp add: complexityFactors_formula quantities_thirteenWords formulas_thirteenWords
        dbl_literals)
  have n: "asciiTag ''complex_grammar'' \<noteq> factorGrammar"
    by (simp add: asciiTag_def factorGrammar_def)
  show ?thesis
    by (simp add: f n g dbl_literals)
qed

text \<open>
  Claim C7, amended: the factor list consists, in this order, of the string
  \<open>factorVocabulary\<close> iff the vocabulary complexity exceeds 0.6, the string
  \<open>factorGrammar\<close> iff the grammar complexity exceeds 0.6 and the string
  \<open>factorLength\<close> iff \<open>W\<close> exceeds 100 (the three literals of the source, which are
  Chinese phrases and not the identifiers of the specification); it is empty when none
  applies. Here \<open>W\<close> is the number of pieces that \<open>split\<close> on runs of white space
  returns: the number of white-space separated tokens, plus one when the query is empty
  or starts with white space, plus one when a non-empty query ends with white space.
  The vocabulary complexity is \<open>0.5 * min(W/100, 1) + 0.5 * min((L/W)/10, 1)\<close> with
  \<open>L\<close> the total length of the tokens, the grammar complexity is \<open>min((W/S)/20, 1)\<close>
  with \<open>S\<close> the number of non-empty trimmed parts between runs of the sentence marks,
  at least 1; each operation is rounded to the nearest double and 0.6 is the double
  nearest to it, so that a complexity whose exact value is 0.6 can exceed the
  threshold.
\<close>

theorem complexityFactors_strings:
  "complexityFactors (evaluateQueryComplexity q) =
     (if dbl 0.6 < vocabularyFormula (pieceCount q) (tokenLength q)
      then [factorVocabulary] else []) @
     (if dbl 0.6 < grammarFormula (pieceCount q) (max (sentencePartCount q) 1)
      then [factorGrammar] else []) @
     (if 100 < pieceCount q then [factorLength] else [])"
  by (rule complexityFactors_formula)

text \<open>Rounding matters at the threshold. Forty words of eight letters have the
  vocabulary complexity \<open>0.5 * 0.4 + 0.5 * 0.8\<close>, which is 0.6 exactly; the doubles
  give \<open>0.2 + 0.4 = 0.6000000000000001\<close>, above the double 0.6, and the evaluator
  pushes the vocabulary factor.\<close>

lemma countTokens_blocks:
  "countTokens False
     (concat (replicate n [0x61, 0x62, 0x63, 0x64, 0x65, 0x66, 0x67, 0x68, 0x20]) @ rest) =
   n + countTokens False rest"
  by (induction n) (simp_all add: isWhiteSpace_letters)

lemma tokenLength_blocks:
  "length (filter (\<lambda>c. \<not> isWhiteSpace c)
     (concat (replicate n [0x61, 0x62, 0x63, 0x64, 0x65, 0x66, 0x67, 0x68, 0x20]))) = 8 * n"
  by (induction n) (simp_all add: isWhiteSpace_letters)

lemma countParts_blocks:
  "countParts True
     (concat (replicate n [0x61, 0x62, 0x63, 0x64, 0x65, 0x66, 0x67, 0x68, 0x20]) @ rest) =
   countParts True rest"
  by (induction n) (simp_all add: isWhiteSpace_letters)

lemma quantities_fortyWords:
  "pieceCount fortyWords = 40" "tokenLength fortyWords = 320"
  "sentencePartCount fortyWords = 1"
proof -
  let ?blk = "[0x61, 0x62, 0x63, 0x64, 0x65, 0x66, 0x67, 0x68, 0x20] :: jsstring"
  let ?w = "[0x61, 0x62, 0x63, 0x64, 0x65, 0x66, 0x67, 0x68] :: jsstring"
  have f: "fortyWords = ?blk @ (concat (replicate 38 ?blk) @ ?w)"
  proof -
    have "replicate 39 ?blk = ?blk # replicate 38 ?blk"
      by (simp add: replicate_Suc [symmetric] del: replicate_Suc)
    then show ?thesis by (simp add: fortyWords_def)
  qed
  have t: "tokenCount fortyWords = 40"
    unfolding tokenCount_def fortyWords_def countTokens_blocks
    by (simp add: isWhiteSpace_letters)
  have l: "last fortyWords = 0x68" and n: "fortyWords \<noteq> []"
    by (simp_all add: fortyWords_def)
  have h: "(case fortyWords of [] \<Rightarrow> 1 | c # cs \<Rightarrow> if isWhiteSpace c then 1 else 0) = (0::nat)"
    unfolding f by (simp add: isWhiteSpace_letters)
  show "pieceCount fortyWords = 40"
    unfolding pieceCount_def h t l by (simp add: n isWhiteSpace_letters)
  show "tokenLength fortyWords = 320"
    by (simp add: tokenLength_def fortyWords_def tokenLength_blocks isWhiteSpace_letters)
  have "sentencePartCount fortyWords = countParts True (concat (replicate 38 ?blk) @ ?w)"
    unfolding sentencePartCount_def f by (simp add: isWhiteSpace_letters)
  then show "sentencePartCount fortyWords = 1"
    unfolding countParts_blocks by (simp add: isWhiteSpace_letters)
qed

lemma formulas_fortyWords:
  "vocabularyFormula 40 320 = 1351079888211149 / 2251799813685248"
  "grammarFormula 40 (Suc 0) = 1"
  unfolding vocabularyFormula_def grammarFormula_def
  by (simp_all add: dbl_eval)

lemma complexityFactors_fortyWords:
  "(0.5 * (40 / 100) + 0.5 * ((320 / 40) / 10) :: real) = 0.6 \<and>
   dbl 0.6 < vocabularyFormula (pieceCount fortyWords) (tokenLength fortyWords) \<and>
   complexityFactors (evaluateQueryComplexity fortyWords) = [factorVocabulary, factorGrammar]"
proof -
  have f: "complexityFactors (evaluateQueryComplexity fortyWords) =
      [factorVocabulary, factorGrammar]"
    by (simp add: complexityFactors_formula quantities_fortyWords formulas_fortyWords
        dbl_literals)
  show ?thesis
    by (simp add: f quantities_fortyWords formulas_fortyWords dbl_literals)
qed

subsection \<open>C8: cost control under an ample budget\<close>

lemma estimateCost_zeroCap:
  "estimateCost zeroCapConfig (dbl (1 / 5)) zeroCapMetadata =
     7007456905000415 / 288230376151711744"
  unfolding estimateCost_def Let_def zeroCapMetadata_def zeroCapConfig_def
  by (simp add: orDefault_def dbl_eval)

lemma getAvailableProviders_zeroCap:
  "getAvailableProviders zeroCapService Local zeroCapMetadata = [(''local'', zeroCapConfig)]"
  "getAvailableProviders zeroCapService Hybrid zeroCapMetadata = []"
  "getAvailableProviders zeroCapService Remote zeroCapMetadata = []"
  by (simp_all add: getAvailableProviders_def zeroCapService_def zeroCapConfig_def
      orDefault_def)

lemma select_zeroCap:
  "selectModelByComplexity zeroCapService (dbl (1 / 5)) fs zeroCapMetadata = Inr zeroCapInfo"
proof -
  have t: "chosenModelType (routingStrategy zeroCapService) (dbl (1 / 5)) = Local"
    by (simp add: chosenModelType_def zeroCapService_def testStrategy_def dbl_literals)
  show ?thesis
    by (simp add: selectModelByComplexity_def Let_def t getAvailableProviders_zeroCap
        selectBestProvider_def zeroCapInfo_def)
qed

text \<open>
  Claim C8, as stated: if the budget parses to a real number that is at least the
  maximum per-query cost of every available provider, \<open>applyCostControlStrategy\<close>
  returns the router's decision unchanged, because the estimated cost is clamped to the
  chosen provider's maximum.

  The claim fails on the code: \<open>estimateCost\<close> clamps to \<open>maxCostPerQuery || 0.1\<close>,
  so a provider configured with the maximum 0 is clamped to 0.1. With such a provider
  as the only one, a request of thirteen code units at score 0.2 and the budget 0.001,
  the budget is at least the maximum of every available provider, the estimated cost is
  about 0.0243, and the function throws COST_LIMIT_EXCEEDED.
\<close>

theorem applyCostControlStrategy_ample_budget_counterexample:
  "maxCostPerQuery zeroCapConfig = Some 0 \<and>
   budget zeroCapMetadata = Some (Finite (dbl (1 / 1000))) \<and>
   0 \<le> dbl (1 / 1000) \<and>
   getAvailableProviders zeroCapService Local zeroCapMetadata = [(''local'', zeroCapConfig)] \<and>
   getAvailableProviders zeroCapService Hybrid zeroCapMetadata = [] \<and>
   getAvailableProviders zeroCapService Remote zeroCapMetadata = [] \<and>
   selectModelByComplexity zeroCapService (dbl (1 / 5)) [] zeroCapMetadata = Inr zeroCapInfo \<and>
   estimatedCost zeroCapInfo = Some (7007456905000415 / 288230376151711744) \<and>
   applyCostControlStrategy zeroCapService zeroCapInfo zeroCapMetadata =
     Inl (GatewayError COST_LIMIT_EXCEEDED)"
proof -
  have m: "maxCostPerQuery zeroCapConfig = Some 0"
    by (simp add: zeroCapConfig_def)
  have b: "budget zeroCapMetadata = Some (Finite (dbl (1 / 1000)))"
    by (simp add: zeroCapMetadata_def)
  have p: "0 \<le> dbl (1 / 1000)"
    by (simp add: dbl_literals)
  have i: "estimatedCost zeroCapInfo = Some (7007456905000415 / 288230376151711744)"
    "modelType zeroCapInfo = Local"
    by (simp_all add: zeroCapInfo_def estimateCost_zeroCap)
  have a: "applyCostControlStrategy zeroCapService zeroCapInfo zeroCapMetadata =
     Inl (GatewayError COST_LIMIT_EXCEEDED)"
    by (simp add: applyCostControlStrategy_def Let_def b i dbl_literals)
  show ?thesis
    using m b p getAvailableProviders_zeroCap select_zeroCap [of "[]"] i(1) a by blast
qed

text \<open>
  Claim C8, amended: if the budget parses to a real number that is at least the
  effective cap of every available provider, \<open>applyCostControlStrategy\<close> returns the
  router's decision unchanged: it neither downgrades nor throws, because the estimated
  cost is clamped to the effective cap of the chosen provider. The effective cap of a
  provider is the cap \<open>estimateCost\<close> uses, \<open>maxCostPerQuery || 0.1\<close>: the configured
  maximum, and 0.1 when none is configured or the configured one is 0. The available
  providers are those \<open>getAvailableProviders\<close> returns for some type.
\<close>

theorem applyCostControlStrategy_ample_budget:
  assumes "budget md = Some (Finite B)"
      and "\<forall>mt. \<forall>(name, config) \<in> set (getAvailableProviders svc mt md).
             orDefault (maxCostPerQuery config) (dbl 0.1) \<le> B"
      and "selectModelByComplexity svc score factors md = Inr info"
  shows "applyCostControlStrategy svc info md = Inr info \<and>
         estimatedCost info = Some (estimateCost (modelConfig info) score md) \<and>
         estimateCost (modelConfig info) score md
           \<le> orDefault (maxCostPerQuery (modelConfig info)) (dbl 0.1)"
proof -
  have m: "(provider info, modelConfig info) \<in> set (getAvailableProviders svc (modelType info) md)"
    using selectModelByComplexity_Inr(2) [OF assms(3)] .
  have c: "estimatedCost info = Some (estimateCost (modelConfig info) score md)"
    using selectModelByComplexity_Inr(3) [OF assms(3)] .
  have cap: "estimateCost (modelConfig info) score md
           \<le> orDefault (maxCostPerQuery (modelConfig info)) (dbl 0.1)"
    by (rule estimateCost_le_max)
  have "orDefault (maxCostPerQuery (modelConfig info)) (dbl 0.1) \<le> B"
    using assms(2) m by blast
  then have "estimateCost (modelConfig info) score md \<le> B"
    using cap by linarith
  then have "applyCostControlStrategy svc info md = Inr info"
    by (simp add: applyCostControlStrategy_def assms(1) c)
  then show ?thesis using c cap by blast
qed

lemma select_ampleBudget:
  "selectModelByComplexity testService (1 / 2) [] ampleBudgetMetadata = Inr anthropicAmpleInfo"
proof -
  have t: "chosenModelType testStrategy (1 / 2) = Hybrid"
    by (simp add: chosenModelType_def testStrategy_def dbl_literals)
  show ?thesis
    by (simp add: selectModelByComplexity_def Let_def testService_simps t
        getAvailableProviders_test selectBestProvider_def orDefault_simps anthropicAmpleInfo_def)
qed

theorem applyCostControlStrategy_ample_budget_witness:
  "budget ampleBudgetMetadata = Some (Finite (dbl (15 / 100))) \<and>
   selectModelByComplexity testService (1 / 2) [] ampleBudgetMetadata = Inr anthropicAmpleInfo \<and>
   applyCostControlStrategy testService anthropicAmpleInfo ampleBudgetMetadata =
     Inr anthropicAmpleInfo"
proof -
  have h1: "budget ampleBudgetMetadata = Some (Finite (dbl (15 / 100)))"
    by (simp add: ampleBudgetMetadata_def)
  have h2: "\<forall>mt. \<forall>(name, config) \<in> set (getAvailableProviders testService mt ampleBudgetMetadata).
             orDefault (maxCostPerQuery config) (dbl 0.1) \<le> dbl (15 / 100)"
  proof
    fix mt
    show "\<forall>(name, config) \<in> set (getAvailableProviders testService mt ampleBudgetMetadata).
             orDefault (maxCostPerQuery config) (dbl 0.1) \<le> dbl (15 / 100)"
      by (cases mt) (simp_all add: getAvailableProviders_test testService_simps orDefault_def
          openaiConfig_def anthropicConfig_def localConfig_def dbl_literals)
  qed
  show ?thesis
    using applyCostControlStrategy_ample_budget [OF h1 h2 select_ampleBudget] h1
      select_ampleBudget by blast
qed

subsection \<open>C9: the daily-cost alert\<close>

lemma recordCost_frame:
  "perfRequestCount (recordCost now mid c t mc) = perfRequestCount mc"
  "perfErrorCount (recordCost now mid c t mc) = perfErrorCount mc"
  "latencies (recordCost now mid c t mc) = latencies mc"
  "lastMinuteRequests (recordCost now mid c t mc) = lastMinuteRequests mc"
  "collectorResources (recordCost now mid c t mc) = collectorResources mc"
  by (simp_all add: recordCost_def Let_def)

lemma recordCost_iterated_frame:
  "perfRequestCount ((recordCost now mid c t ^^ n) mc) = perfRequestCount mc \<and>
   perfErrorCount ((recordCost now mid c t ^^ n) mc) = perfErrorCount mc \<and>
   latencies ((recordCost now mid c t ^^ n) mc) = latencies mc \<and>
   lastMinuteRequests ((recordCost now mid c t ^^ n) mc) = lastMinuteRequests mc \<and>
   collectorResources ((recordCost now mid c t ^^ n) mc) = collectorResources mc"
  by (induction n) (simp_all add: recordCost_frame)

lemma recordCost_iterated_costs:
  "collectorCosts ((recordCost now mid c t ^^ Suc n) initialCollector) =
     [(mid, \<lparr> totalCost = ((\<lambda>total. fadd total c) ^^ Suc n) 0, totalTokens = Suc n * t,
              history = replicate (Suc n) \<lparr> timestamp = now, entryCost = c, entryTokens = t \<rparr> \<rparr>)]"
proof (induction n)
  case 0
  show ?case by (simp add: recordCost_def Let_def initialCollector_def)
next
  case (Suc n)
  have "collectorCosts ((recordCost now mid c t ^^ Suc (Suc n)) initialCollector) =
        collectorCosts (recordCost now mid c t ((recordCost now mid c t ^^ Suc n) initialCollector))"
    by simp
  also have "\<dots> = [(mid, \<lparr> totalCost = ((\<lambda>total. fadd total c) ^^ Suc (Suc n)) 0,
              totalTokens = Suc (Suc n) * t,
              history = replicate (Suc (Suc n))
                 \<lparr> timestamp = now, entryCost = c, entryTokens = t \<rparr> \<rparr>)]"
    unfolding recordCost_def [of now mid c t "(recordCost now mid c t ^^ Suc n) initialCollector"]
      Suc.IH
    by (simp add: Let_def algebra_simps replicate_append_same)
  finally show ?case .
qed

text \<open>Ten additions of the cost 2 are exact.\<close>

lemma fadd_two:
  "fadd 0 2 = 2" "fadd 2 2 = 4" "fadd 4 2 = 6" "fadd 6 2 = 8" "fadd 8 2 = 10"
  "fadd 10 2 = 12" "fadd 12 2 = 14" "fadd 14 2 = 16" "fadd 16 2 = 18" "fadd 18 2 = 20"
  by (simp_all add: dbl_eval)

lemma totalCost_ten_times_two: "((\<lambda>total. fadd total 2) ^^ Suc 9) 0 = 20"
  by (simp add: eval_nat_numeral fadd_two)

lemma recordRequest_costs:
  "collectorCosts (recordRequest now mid d ok c t mc) = collectorCosts mc"
  by (simp add: recordRequest_def cleanupOldMetrics_def Let_def)

lemma recordRequest_iterated_costs:
  "collectorCosts ((recordRequest now mid d ok c t ^^ n) mc) = collectorCosts mc"
  by (induction n) (simp_all add: recordRequest_costs)

lemma costDailyAlerts_generateAlert:
  "costDailyAlerts (generateAlert ty sev d am) =
     costDailyAlerts am @ (if ty = ''cost_daily'' then [\<lparr> alertType = ty, severity = sev, alertData = d \<rparr>] else [])"
  by (simp add: costDailyAlerts_def generateAlert_def)

lemma generateAlert_thresholds:
  "alertThresholds (generateAlert ty sev d am) = alertThresholds am"
  by (simp add: generateAlert_def)

lemma costDailyAlerts_checkPerformanceMetrics:
  "costDailyAlerts (checkPerformanceMetrics ms am) = costDailyAlerts am"
  by (simp add: checkPerformanceMetrics_def Let_def costDailyAlerts_generateAlert)

lemma costDailyAlerts_checkResourceMetrics:
  "costDailyAlerts (checkResourceMetrics res am) = costDailyAlerts am"
  by (simp add: checkResourceMetrics_def Let_def costDailyAlerts_generateAlert
      split: option.splits prod.splits)

lemma thresholds_checks:
  "alertThresholds (checkPerformanceMetrics ms am) = alertThresholds am"
  "alertThresholds (checkResourceMetrics res am) = alertThresholds am"
  by (simp_all add: checkPerformanceMetrics_def checkResourceMetrics_def Let_def
      generateAlert_thresholds split: option.splits prod.splits)

lemma costTotals_summary:
  "costTotals now (summaryCosts (getMetricsSummary mc)) totals =
     (if collectorCosts mc = [] then Inr totals else Inl TypeError)"
  by (cases "collectorCosts mc"; cases totals) (simp_all add: getMetricsSummary_def split: prod.splits)

text \<open>Whatever the collector has recorded, a health check over its summary adds no
  \<open>cost_daily\<close> alert: with no cost entries both totals are zero, and with cost
  entries the check throws before it compares anything.\<close>

lemma runHealthChecks_adds_no_cost_daily:
  assumes "0 \<le> costDaily (alertThresholds am)"
  shows "costDailyAlerts (runHealthChecks now (getMetricsSummary mc) am) = costDailyAlerts am"
proof (cases "collectorCosts mc = []")
  case True
  then show ?thesis using assms
    by (simp add: runHealthChecks_def Let_def checkCostMetrics_def costTotals_summary
        thresholds_checks costDailyAlerts_generateAlert costDailyAlerts_checkPerformanceMetrics
        costDailyAlerts_checkResourceMetrics)
next
  case False
  then show ?thesis
    by (simp add: runHealthChecks_def Let_def checkCostMetrics_def costTotals_summary
        costDailyAlerts_checkPerformanceMetrics costDailyAlerts_checkResourceMetrics)
qed

text \<open>
  Claim C9: with the daily cost threshold set to 10, after recording 10 successful
  requests of cost 2 each (20 over the last 24 hours), running the health check over
  the current metrics raises a \<open>cost_daily\<close> alert of severity high.

  On the code the claim fails. When the costs are recorded with \<open>recordCost\<close>, as the
  cost-alert test does, the collector holds a daily cost of 20, but the summary the
  health check receives carries no history, \<open>checkCostMetrics\<close> throws inside
  \<open>runHealthChecks\<close>, and no alert at all is raised. When they are recorded as
  requests, \<open>recordRequest\<close> stores the costs with the model metrics and the summary
  has no cost entry, so again no \<open>cost_daily\<close> alert is raised.
\<close>

theorem runHealthChecks_raises_no_cost_alert:
  "dailyCostOf 1000500 costsRecorded = 20 \<and>
   costDaily (alertThresholds testAlertManager) = 10 \<and>
   alerts (runHealthChecks 1000500 (getMetricsSummary costsRecorded) testAlertManager) = [] \<and>
   costDailyAlerts
     (runHealthChecks 1000500 (getMetricsSummary requestsRecorded) testAlertManager) = []"
proof -
  have ten: "(10::nat) = Suc 9" by simp
  have cs: "collectorCosts costsRecorded =
     [(''openai'', \<lparr> totalCost = 20, totalTokens = 10000,
         history = replicate 10 \<lparr> timestamp = 1000000, entryCost = 2, entryTokens = 1000 \<rparr> \<rparr>)]"
    unfolding costsRecorded_def ten recordCost_iterated_costs totalCost_ten_times_two by simp
  have fr: "perfRequestCount costsRecorded = 0" "latencies costsRecorded = []"
    "collectorResources costsRecorded = \<lparr> cpu = [], memory = None \<rparr>"
    "lastMinuteRequests costsRecorded = []"
    unfolding costsRecorded_def by (simp_all add: recordCost_iterated_frame initialCollector_def)
  have d: "dailyCostOf 1000500 costsRecorded = 20"
    by (simp add: dailyCostOf_def cs sum_list_replicate)
  have s: "getMetricsSummary costsRecorded =
      \<lparr> summaryRequestCount = 0, errorRate = 0, averageLatency = 0, requestsPerMinute = 0,
        summaryResources = \<lparr> cpu = [], memory = None \<rparr>,
        summaryCosts = [\<lparr> costModelId = ''openai'', costTotal = 20, costTokens = 10000,
                          costHistory = None \<rparr>] \<rparr>"
    by (simp add: getMetricsSummary_def getResourceMetrics_def cs fr)
  have a: "alerts (runHealthChecks 1000500 (getMetricsSummary costsRecorded) testAlertManager) = []"
    unfolding s
    by (simp add: runHealthChecks_def Let_def checkPerformanceMetrics_def checkResourceMetrics_def
        checkCostMetrics_def testAlertManager_def dbl_literals)
  have t: "costDaily (alertThresholds testAlertManager) = 10"
    by (simp add: testAlertManager_def)
  have r: "costDailyAlerts
     (runHealthChecks 1000500 (getMetricsSummary requestsRecorded) testAlertManager) = []"
    by (simp add: runHealthChecks_adds_no_cost_daily t)
       (simp add: costDailyAlerts_def testAlertManager_def)
  show ?thesis using d t a r by blast
qed

subsection \<open>C10: providers without a list of model types\<close>

text \<open>
  Claim C10: a provider whose configuration omits \<open>supportedModelTypes\<close> is treated
  as supporting every model type: \<open>getAvailableProviders\<close> keeps it for any type
  whenever its status is not offline and its active-connection count is below its
  concurrency limit, which is 10 when \<open>maxConcurrentQueries\<close> is absent.
\<close>

theorem getAvailableProviders_default_types:
  assumes "supportedModelTypes config = None"
  shows "((name, config) \<in> set (getAvailableProviders svc mt md) \<longleftrightarrow>
            (name, config) \<in> set (modelProviders svc) \<and> status config \<noteq> Offline \<and>
            orDefault (activeConnections svc name) 0 < orDefault (maxConcurrentQueries config) 10) \<and>
         (maxConcurrentQueries config = None \<longrightarrow>
            ((name, config) \<in> set (getAvailableProviders svc mt md) \<longleftrightarrow>
               (name, config) \<in> set (modelProviders svc) \<and> status config \<noteq> Offline \<and>
               orDefault (activeConnections svc name) 0 < 10))"
  using assms by (auto simp: getAvailableProviders_def Let_def orDefault_def)

theorem getAvailableProviders_default_types_witness:
  "supportedModelTypes bareConfig = None \<and> maxConcurrentQueries bareConfig = None \<and>
   activeConnections bareService ''bare'' = Some 9 \<and>
   (''bare'', bareConfig) \<in> set (getAvailableProviders bareService Local testMetadata) \<and>
   (''bare'', bareConfig) \<in> set (getAvailableProviders bareService Hybrid testMetadata) \<and>
   (''bare'', bareConfig) \<in> set (getAvailableProviders bareService Remote testMetadata) \<and>
   (''bare'', bareConfig) \<notin>
      set (getAvailableProviders (recordModelUseStart bareService ''bare'') Remote testMetadata)"
proof -
  have h: "supportedModelTypes bareConfig = None"
    and m: "maxConcurrentQueries bareConfig = None"
    and st: "status bareConfig \<noteq> Offline"
    by (simp_all add: bareConfig_def)
  have p: "(''bare'', bareConfig) \<in> set (modelProviders bareService)"
    and c: "activeConnections bareService ''bare'' = Some 9"
    by (simp_all add: bareService_def)
  have p': "(''bare'', bareConfig) \<in> set (modelProviders (recordModelUseStart bareService ''bare''))"
    and c': "activeConnections (recordModelUseStart bareService ''bare'') ''bare'' = Some 10"
    by (simp_all add: recordModelUseStart_simps p c orDefault_def)
  have n9: "orDefault (Some (9::nat)) 0 = 9" and n10: "orDefault (Some (10::nat)) 0 = 10"
    by (simp_all add: orDefault_def)
  show ?thesis
    using getAvailableProviders_default_types [OF h, of "''bare''" bareService Local testMetadata]
      getAvailableProviders_default_types [OF h, of "''bare''" bareService Hybrid testMetadata]
      getAvailableProviders_default_types [OF h, of "''bare''" bareService Remote testMetadata]
      getAvailableProviders_default_types [OF h, of "''bare''"
        "recordModelUseStart bareService ''bare''" Remote testMetadata]
    by (simp add: h m st p c p' c' n9 n10 orDefault_simps)
qed

end
